theory Spec2Isabelle
  imports Main "HOL-Library.Monad_Syntax"
begin

section \<open>Dungeon Escape: the game-state engine of main.cpp\<close>

text \<open>
  The theory embeds the game logic of \<^verbatim>\<open>main.cpp\<close> (section 1 of the file, the class
  \<^verbatim>\<open>GamePlayScreen\<close> and the parts of \<^verbatim>\<open>Game\<close> that dispatch to it) as HOL
  functions with explicit state passing.

  Conventions.
  \<^item> A C++ \<^verbatim>\<open>int\<close> is a HOL \<open>int\<close>. \<^verbatim>\<open>heal\<close> adds an amount that its caller
    chooses to the health, and the sum of two 32-bit values can leave the 32-bit range:
    there the wrap-around of the sum is written out (\<open>wrap_int\<close>). The differences in
    \<^verbatim>\<open>takeDamage\<close> and \<^verbatim>\<open>useMove\<close> are taken as they are.
  \<^item> A \<^verbatim>\<open>Room*\<close> is an \<open>addr option\<close>, with \<open>None\<close> for \<^verbatim>\<open>nullptr\<close>; the rooms live
    in a store \<open>rooms\<close> from addresses to room records. No room is deleted while a
    session runs, so every address holds a room.
  \<^item> A thrown exception is the left summand of a sum type.
  \<^item> Rendering (\<^verbatim>\<open>updateUI\<close>, \<^verbatim>\<open>onResize\<close>, the damage flash, the screen shake) does not
    write any of the fields modelled here and is left out.
  \<^item> The clocks are not modelled: whether a fade has run for its full duration
    (\<^verbatim>\<open>t >= 1.0f\<close>) is an input of the update step.
\<close>

subsection \<open>Entities\<close>

text \<open>
  The class hierarchy below \<^verbatim>\<open>Entity\<close>: \<^verbatim>\<open>Item\<close> with subclasses \<^verbatim>\<open>Weapon\<close>,
  \<^verbatim>\<open>Potion\<close>, \<^verbatim>\<open>Key\<close>, and \<^verbatim>\<open>Enemy\<close> with subclasses \<^verbatim>\<open>MinionEnemy\<close>,
  \<^verbatim>\<open>BossEnemy\<close>. A \<^verbatim>\<open>dynamic_cast\<close> to a class succeeds on the objects of that class
  and of its subclasses.
\<close>

datatype item_class = PlainItem | Weapon | Potion | Key

datatype enemy_class = PlainEnemy | MinionEnemy | BossEnemy

datatype entity = Item item_class string | Enemy enemy_class string int

fun getName :: "entity \<Rightarrow> string" where
  "getName (Item c n) = n"
| "getName (Enemy c n d) = n"

text \<open>
  \<^verbatim>\<open>getDamage\<close> is a member of \<^verbatim>\<open>Enemy\<close>; the engine calls it only after the cast to
  \<^verbatim>\<open>Enemy\<close> has succeeded, so the value given for an item is never read.
\<close>

fun getDamage :: "entity \<Rightarrow> int" where
  "getDamage (Enemy c n d) = d"
| "getDamage (Item c n) = 0"

fun is_Item :: "entity \<Rightarrow> bool" where
  "is_Item (Item c n) = True"
| "is_Item (Enemy c n d) = False"

fun is_Weapon :: "entity \<Rightarrow> bool" where
  "is_Weapon (Item c n) = (c = Weapon)"
| "is_Weapon (Enemy c n d) = False"

fun is_Potion :: "entity \<Rightarrow> bool" where
  "is_Potion (Item c n) = (c = Potion)"
| "is_Potion (Enemy c n d) = False"

fun is_Enemy :: "entity \<Rightarrow> bool" where
  "is_Enemy (Enemy c n d) = True"
| "is_Enemy (Item c n) = False"

fun is_BossEnemy :: "entity \<Rightarrow> bool" where
  "is_BossEnemy (Enemy c n d) = (c = BossEnemy)"
| "is_BossEnemy (Item c n) = False"

subsection \<open>Stack\<close>

text \<open>
  \<^verbatim>\<open>Stack<T>\<close> is a singly linked list of nodes with the top first; the model is the
  list of the nodes' data, top first. \<^verbatim>\<open>top\<close> on an empty stack throws
  \<^verbatim>\<open>std::runtime_error("Stack is empty.")\<close>.
\<close>

datatype exn = runtime_error string

type_synonym 'a Stack = "'a list"

definition Stack_isEmpty :: "'a Stack \<Rightarrow> bool" where
  "Stack_isEmpty st = (st = [])"

definition Stack_push :: "'a \<Rightarrow> 'a Stack \<Rightarrow> 'a Stack" where
  "Stack_push v st = v # st"

definition Stack_pop :: "'a Stack \<Rightarrow> 'a Stack" where
  "Stack_pop st = (if Stack_isEmpty st then st else tl st)"

definition Stack_top :: "'a Stack \<Rightarrow> exn + 'a" where
  "Stack_top st = (if Stack_isEmpty st then Inl (runtime_error ''Stack is empty.'') else Inr (hd st))"

definition Stack_size :: "'a Stack \<Rightarrow> nat" where
  "Stack_size st = length st"

subsection \<open>Inventory\<close>

text \<open>
  \<^verbatim>\<open>Inventory<T>\<close> is a growing array; the model is the list of \<^verbatim>\<open>items[0..current_size)\<close>.
\<close>

type_synonym 'a Inventory = "'a list"

definition Inventory_add :: "'a Inventory \<Rightarrow> 'a \<Rightarrow> 'a Inventory" where
  "Inventory_add items item = items @ [item]"

fun Inventory_has :: "'a Inventory \<Rightarrow> 'a \<Rightarrow> bool" where
  "Inventory_has [] item = False"
| "Inventory_has (x # xs) item = (if x = item then True else Inventory_has xs item)"

subsection \<open>Printing integers\<close>

function nat_digits :: "nat \<Rightarrow> string" where
  "nat_digits n =
     (if n < 10 then [''0123456789'' ! n]
      else nat_digits (n div 10) @ [''0123456789'' ! (n mod 10)])"
  by pat_completeness auto
termination
  by (relation "measure (\<lambda>n. n)") auto

definition to_string :: "int \<Rightarrow> string" where
  "to_string i = (if i < 0 then CHR ''-'' # nat_digits (nat (- i)) else nat_digits (nat i))"

subsection \<open>Player\<close>

record player =
  player_name :: string
  health :: int
  moves :: int
  inventory :: "string Inventory"
  finalBossDefeated :: bool

definition Player :: "string \<Rightarrow> int \<Rightarrow> int \<Rightarrow> player" where
  "Player n h m =
     \<lparr>player_name = n, health = h, moves = m, inventory = [], finalBossDefeated = False\<rparr>"

text \<open>\<^verbatim>\<open>takeDamage\<close> returns the text it prints with the player it leaves.\<close>

definition takeDamage :: "player \<Rightarrow> int \<Rightarrow> string \<times> player" where
  "takeDamage p damage =
     (let h = health p - damage;
          h = (if h < 0 then 0 else h)
      in (''You took '' @ to_string damage @ '' damage!'', p\<lparr>health := h\<rparr>))"

text \<open>
  The value of a 32-bit \<^verbatim>\<open>int\<close> sum: the mathematical sum, wrapped into the range from
  \<^verbatim>\<open>INT_MIN\<close> to \<^verbatim>\<open>INT_MAX\<close>.
\<close>

definition INT_MAX :: int where
  "INT_MAX = 2147483647"

definition wrap_int :: "int \<Rightarrow> int" where
  "wrap_int x = (x + 2147483648) mod 4294967296 - 2147483648"

definition heal :: "player \<Rightarrow> int \<Rightarrow> player" where
  "heal p amount = p\<lparr>health := min 100 (wrap_int (health p + amount))\<rparr>"

definition useMove :: "player \<Rightarrow> player" where
  "useMove p = p\<lparr>moves := moves p - 1\<rparr>"

definition collectItem :: "player \<Rightarrow> string \<Rightarrow> player" where
  "collectItem p item = p\<lparr>inventory := Inventory_add (inventory p) item\<rparr>"

definition hasItem :: "player \<Rightarrow> string \<Rightarrow> bool" where
  "hasItem p item = Inventory_has (inventory p) item"

definition setBossDefeated :: "player \<Rightarrow> bool \<Rightarrow> player" where
  "setBossDefeated p status = p\<lparr>finalBossDefeated := status\<rparr>"

subsection \<open>Rooms and the dungeon\<close>

type_synonym addr = nat

type_synonym room_ptr = "addr option"

record room =
  name :: string
  description :: string
  entity :: "entity option"
  "next" :: room_ptr
  isFinalDoor :: bool
  isChoiceRoom :: bool
  backgroundID :: string

definition Room :: "string \<Rightarrow> string \<Rightarrow> string \<Rightarrow> room" where
  "Room n d bgID =
     \<lparr>name = n, description = d, entity = None, next = None,
      isFinalDoor = False, isChoiceRoom = False, backgroundID = bgID\<rparr>"

text \<open>
  The dungeon holds a reference to the player of the game; its operations take that
  player and return it with the dungeon.
\<close>

record dungeon =
  rooms :: "addr \<Rightarrow> room"
  head :: room_ptr
  currentRoom :: room_ptr
  path_tracker :: "room_ptr Stack"

definition getCurrentRoom :: "dungeon \<Rightarrow> room_ptr" where
  "getCurrentRoom d = currentRoom d"

definition canMoveBack :: "dungeon \<Rightarrow> bool" where
  "canMoveBack d = (\<not> Stack_isEmpty (path_tracker d))"

definition canMoveForward :: "dungeon \<Rightarrow> bool" where
  "canMoveForward d =
     (case currentRoom d of None \<Rightarrow> False | Some a \<Rightarrow> next (rooms d a) \<noteq> None)"

definition moveForward :: "player \<Rightarrow> dungeon \<Rightarrow> player \<times> dungeon" where
  "moveForward p d =
     (if canMoveForward d then
        (useMove p,
         d\<lparr>path_tracker := Stack_push (currentRoom d) (path_tracker d),
           currentRoom := (case currentRoom d of None \<Rightarrow> None | Some a \<Rightarrow> next (rooms d a))\<rparr>)
      else (p, d))"

definition moveBack :: "player \<Rightarrow> dungeon \<Rightarrow> exn + player \<times> dungeon" where
  "moveBack p d =
     (if canMoveBack d then
        (case Stack_top (path_tracker d) of
           Inl e \<Rightarrow> Inl e
         | Inr r \<Rightarrow>
             Inr (useMove p, d\<lparr>currentRoom := r, path_tracker := Stack_pop (path_tracker d)\<rparr>))
      else Inr (p, d))"

text \<open>
  \<^verbatim>\<open>addRoom\<close> walks the \<^verbatim>\<open>next\<close> pointers from \<^verbatim>\<open>head\<close> to the last room; on a cyclic
  chain the loop does not end.
\<close>

partial_function (option) last_room :: "(addr \<Rightarrow> room) \<Rightarrow> addr \<Rightarrow> addr option" where
  "last_room h temp = (case next (h temp) of Some n \<Rightarrow> last_room h n | None \<Rightarrow> Some temp)"

declare last_room.simps [code]

definition addRoom :: "dungeon \<Rightarrow> addr \<Rightarrow> dungeon option" where
  "addRoom d newRoom =
     (case head d of
        None \<Rightarrow> Some (d\<lparr>head := Some newRoom, currentRoom := Some newRoom\<rparr>)
      | Some h \<Rightarrow>
          (case last_room (rooms d) h of
             None \<Rightarrow> None
           | Some t \<Rightarrow> Some (d\<lparr>rooms := (rooms d)(t := (rooms d t)\<lparr>next := Some newRoom\<rparr>)\<rparr>)))"

subsection \<open>Item interaction\<close>

text \<open>\<^verbatim>\<open>Item::interact\<close> returns the player with the text stored in \<^verbatim>\<open>interactionResult\<close>.\<close>

definition Item_interact :: "entity \<Rightarrow> player \<Rightarrow> player \<times> string" where
  "Item_interact this p =
     (if is_Potion this then (heal p 100, ''You drank the potion and feel fully restored!'')
      else (collectItem p (getName this), ''You picked up the '' @ getName this @ ''.''))"

subsection \<open>Screens and the game\<close>

datatype GameStateID = GS_NONE | MENU | NAME_INPUT | GAMEPLAY | GAME_OVER

datatype TransitionState = TS_NONE | TS_FADING_OUT | TS_FADING_IN

datatype InteractionState = EXPLORING | COMBAT | CHOICE | MESSAGE

datatype GpTransitionState = Gp_NONE | Gp_FADING_OUT | Gp_FADING_IN

text \<open>The key codes that \<^verbatim>\<open>GamePlayScreen::handleEvent\<close> tells apart, and the events.\<close>

datatype key =
  Key_F | Key_B | Key_C | Key_Q | Key_R | Key_Num1 | Key_Numpad1 | Key_Num2 | Key_Numpad2
  | Key_Enter | Key_Other

datatype event = KeyPressed key | OtherEvent

text \<open>
  The closures handed to \<^verbatim>\<open>startTransition\<close>, one constructor for each lambda of
  \<^verbatim>\<open>handleEvent\<close>; the one that collects the sword captures the room.
\<close>

datatype callback =
  cb_moveForward | cb_moveBack | cb_collectSword addr | cb_handleCombat | cb_handleChoice int
  | cb_exploring

text \<open>
  \<^verbatim>\<open>std::string::find\<close>, as far as \<^verbatim>\<open>GameOverScreen\<close> uses it: whether the pattern occurs.
\<close>

fun starts_with :: "string \<Rightarrow> string \<Rightarrow> bool" where
  "starts_with [] s = True"
| "starts_with (p # ps) [] = False"
| "starts_with (p # ps) (c # cs) = (p = c \<and> starts_with ps cs)"

fun str_contains :: "string \<Rightarrow> string \<Rightarrow> bool" where
  "str_contains [] pat = (pat = [])"
| "str_contains (c # cs) pat = (starts_with pat (c # cs) \<or> str_contains cs pat)"

record GameOverScreen =
  reason :: string
  finalBgId :: string
  win :: bool

definition GameOverScreen_new :: "string \<Rightarrow> string \<Rightarrow> GameOverScreen" where
  "GameOverScreen_new r bg = \<lparr>reason = r, finalBgId = bg, win = str_contains r ''VICTORIOUS''\<rparr>"

text \<open>
  The fields of \<^verbatim>\<open>Game\<close> that the game logic reads or writes, with the fields of the one
  \<^verbatim>\<open>GamePlayScreen\<close> of the session. \<open>gameOverScreen\<close> is \<^verbatim>\<open>screens[GameStateID::GAME_OVER]\<close>.
  \<^verbatim>\<open>playerLogic\<close> and \<^verbatim>\<open>dungeonLogic\<close> are set by \<^verbatim>\<open>startGameplay\<close> before the
  \<^verbatim>\<open>GamePlayScreen\<close> exists, so they are not null where the screen reads them.
\<close>

record game =
  playerLogic :: player
  dungeonLogic :: dungeon
  currentStateID :: GameStateID
  nextStateID :: GameStateID
  currentTransition :: TransitionState
  gameOverScreen :: "GameOverScreen option"
  currentState :: InteractionState
  transitionState :: GpTransitionState
  onTransitionComplete :: "callback option"
  message :: string
  actionsLog :: "string list"
  m_isNewRoomEntry :: bool

definition changeScreen :: "game \<Rightarrow> GameStateID \<Rightarrow> game" where
  "changeScreen g newStateID =
     (if currentTransition g = TS_NONE \<and> newStateID \<noteq> currentStateID g
      then g\<lparr>nextStateID := newStateID, currentTransition := TS_FADING_OUT\<rparr>
      else g)"

text \<open>A write through a \<^verbatim>\<open>Room*\<close>.\<close>

definition update_room :: "addr \<Rightarrow> (room \<Rightarrow> room) \<Rightarrow> game \<Rightarrow> game" where
  "update_room a f g =
     g\<lparr>dungeonLogic :=
         (dungeonLogic g)\<lparr>rooms := (rooms (dungeonLogic g))(a := f (rooms (dungeonLogic g) a))\<rparr>\<rparr>"

definition startTransition :: "game \<Rightarrow> callback \<Rightarrow> game" where
  "startTransition g cb =
     (if transitionState g = Gp_NONE
      then g\<lparr>transitionState := Gp_FADING_OUT, onTransitionComplete := Some cb\<rparr>
      else g)"

definition MAX_LOG_SIZE :: nat where
  "MAX_LOG_SIZE = 4"

definition addAction :: "game \<Rightarrow> string \<Rightarrow> game" where
  "addAction g action =
     (if action = [] \<or> (actionsLog g \<noteq> [] \<and> action = hd (actionsLog g)) then g
      else let l = action # actionsLog g
           in g\<lparr>actionsLog := (if length l > MAX_LOG_SIZE then butlast l else l)\<rparr>)"

definition triggerGameOver :: "game \<Rightarrow> string \<Rightarrow> game" where
  "triggerGameOver g r =
     (let bg = (case getCurrentRoom (dungeonLogic g) of
                  Some a \<Rightarrow> backgroundID (rooms (dungeonLogic g) a)
                | None \<Rightarrow> ''dungeon.png'')
      in changeScreen (g\<lparr>gameOverScreen := Some (GameOverScreen_new r bg)\<rparr>) GAME_OVER)"

definition inSwordRoomWithSword :: "dungeon \<Rightarrow> bool" where
  "inSwordRoomWithSword d =
     (case getCurrentRoom d of
        None \<Rightarrow> False
      | Some a \<Rightarrow>
          (case entity (rooms d a) of
             None \<Rightarrow> False
           | Some e \<Rightarrow> is_Weapon e \<and> name (rooms d a) = ''Chamber of the Cursed Blades''))"

definition handleItemInteraction :: "game \<Rightarrow> game" where
  "handleItemInteraction g =
     (case getCurrentRoom (dungeonLogic g) of
        None \<Rightarrow> g
      | Some a \<Rightarrow>
          (case entity (rooms (dungeonLogic g) a) of
             None \<Rightarrow> g
           | Some item \<Rightarrow>
               if \<not> is_Item item then g
               else let (p, result) = Item_interact item (playerLogic g);
                        g = g\<lparr>playerLogic := p\<rparr>;
                        g = addAction g result;
                        g = update_room a (\<lambda>r. r\<lparr>description := result, entity := None\<rparr>) g
                    in g\<lparr>currentState := EXPLORING\<rparr>))"

definition checkRoomState :: "game \<Rightarrow> game" where
  "checkRoomState g =
     (case getCurrentRoom (dungeonLogic g) of
        None \<Rightarrow> g
      | Some a \<Rightarrow>
          let room = rooms (dungeonLogic g) a;
              g = (if m_isNewRoomEntry g
                   then (addAction g (''Entered The '' @ name room))\<lparr>m_isNewRoomEntry := False\<rparr>
                   else g)
          in if isFinalDoor room then
               (if hasItem (playerLogic g) ''Golden Key'' \<and> finalBossDefeated (playerLogic g)
                then triggerGameOver g ''You used the Golden key and escaped. You are VICTORIOUS!''
                else if hasItem (playerLogic g) ''Golden Key''
                then triggerGameOver g ''The final door is locked tight. The boss must be defeated!''
                else triggerGameOver g ''The final door is locked. You needed the Golden Key.'')
             else
               (case entity room of
                  Some e \<Rightarrow>
                    if is_Weapon e \<and> name room = ''Chamber of the Cursed Blades''
                    then g\<lparr>currentState := EXPLORING\<rparr>
                    else if is_Enemy e then g\<lparr>currentState := COMBAT\<rparr>
                    else handleItemInteraction g
                | None \<Rightarrow>
                    if isChoiceRoom room then g\<lparr>currentState := CHOICE\<rparr>
                    else g\<lparr>currentState := EXPLORING\<rparr>))"

text \<open>
  The damage that \<^verbatim>\<open>handleCombat\<close> applies and the first line of its message
  (\<^verbatim>\<open>effectiveDamage\<close> and \<^verbatim>\<open>message\<close> before the call of \<^verbatim>\<open>takeDamage\<close>).
\<close>

definition effectiveDamage :: "player \<Rightarrow> entity \<Rightarrow> int \<times> string" where
  "effectiveDamage p enemy =
     (if is_BossEnemy enemy then
        (if hasItem p ''Sword'' then (50, ''Your Sword glows, weakening the boss!\<newline>'')
         else (getDamage enemy, ''You are unarmed against the mighty boss!\<newline>''))
      else (getDamage enemy, []))"

definition handleCombat :: "game \<Rightarrow> game" where
  "handleCombat g =
     (case getCurrentRoom (dungeonLogic g) of
        None \<Rightarrow> g
      | Some a \<Rightarrow>
          (case entity (rooms (dungeonLogic g) a) of
             None \<Rightarrow> g
           | Some enemy \<Rightarrow>
               if \<not> is_Enemy enemy then g
               else let g = addAction g (''Fought the '' @ getName enemy);
                        (dmg, msg) = effectiveDamage (playerLogic g) enemy;
                        (damageResult, p) = takeDamage (playerLogic g) dmg;
                        g = g\<lparr>playerLogic := p, message := msg @ damageResult\<rparr>
                    in if health (playerLogic g) \<le> 0 then
                         triggerGameOver (addAction g (''You were slain by the '' @ getName enemy))
                           ''You have died in combat.''
                       else
                         let enemyName = getName enemy;
                             g = addAction g (''Defeated the '' @ enemyName);
                             g = (if is_BossEnemy enemy
                                  then addAction
                                         (g\<lparr>playerLogic := setBossDefeated (playerLogic g) True\<rparr>)
                                         ''The final boss is defeated!''
                                  else g);
                             g = update_room a
                                   (\<lambda>r. r\<lparr>description :=
                                              ''You defeated the '' @ enemyName
                                              @ ''. The way is clear. (You took '' @ to_string dmg
                                              @ '' damage)'',
                                            entity := None\<rparr>) g
                         in g\<lparr>currentState := MESSAGE\<rparr>))"

definition handleChoice :: "game \<Rightarrow> int \<Rightarrow> game" where
  "handleChoice g choice =
     (case getCurrentRoom (dungeonLogic g) of
        None \<Rightarrow> g
      | Some a \<Rightarrow>
          if \<not> isChoiceRoom (rooms (dungeonLogic g) a) then g
          else let g = (if choice = 1 then
                          update_room a (\<lambda>r. r\<lparr>description := ''You took the Golden Key.''\<rparr>)
                            (addAction
                               (g\<lparr>playerLogic := collectItem (playerLogic g) ''Golden Key''\<rparr>)
                               ''You took the Golden Key.'')
                        else
                          update_room a (\<lambda>r. r\<lparr>description := ''You drank the Health Potion.''\<rparr>)
                            (addAction (g\<lparr>playerLogic := heal (playerLogic g) 100\<rparr>)
                               ''You drank the Health Potion.''));
                   g = update_room a (\<lambda>r. r\<lparr>isChoiceRoom := False\<rparr>) g
               in g\<lparr>currentState := EXPLORING\<rparr>)"

text \<open>
  Running a closure of \<^verbatim>\<open>handleEvent\<close>. Only the one that moves back can throw, through
  \<^verbatim>\<open>Stack::top\<close>.
\<close>

fun runCallback :: "callback \<Rightarrow> game \<Rightarrow> exn + game" where
  "runCallback cb_moveForward g =
     (let g = g\<lparr>m_isNewRoomEntry := True\<rparr>;
          (p, d) = moveForward (playerLogic g) (dungeonLogic g)
      in Inr (g\<lparr>playerLogic := p, dungeonLogic := d\<rparr>))"
| "runCallback cb_moveBack g =
     (let g = g\<lparr>m_isNewRoomEntry := True\<rparr>
      in case moveBack (playerLogic g) (dungeonLogic g) of
           Inl e \<Rightarrow> Inl e
         | Inr (p, d) \<Rightarrow> Inr (g\<lparr>playerLogic := p, dungeonLogic := d\<rparr>))"
| "runCallback (cb_collectSword room) g =
     (let g = g\<lparr>playerLogic := collectItem (playerLogic g) ''Sword''\<rparr>;
          g = addAction g ''You collected the Sword.'';
          g = update_room room
                (\<lambda>r. r\<lparr>description :=
                           ''You grasp the sword. A surge of ultimate power floods your veins.'',
                         entity := None\<rparr>) g
      in Inr (g\<lparr>currentState := EXPLORING\<rparr>))"
| "runCallback cb_handleCombat g = Inr (handleCombat g)"
| "runCallback (cb_handleChoice choice) g = Inr (handleChoice g choice)"
| "runCallback cb_exploring g = Inr (g\<lparr>currentState := EXPLORING\<rparr>)"

definition GamePlayScreen_handleEvent :: "event \<Rightarrow> game \<Rightarrow> game" where
  "GamePlayScreen_handleEvent ev g =
     (case ev of
        OtherEvent \<Rightarrow> g
      | KeyPressed code \<Rightarrow>
          if transitionState g \<noteq> Gp_NONE then g
          else
            (case currentState g of
               EXPLORING \<Rightarrow>
                 if code = Key_F then
                   (if moves (playerLogic g) \<le> 0
                    then triggerGameOver g ''You have run out of moves.''
                    else if canMoveForward (dungeonLogic g) then startTransition g cb_moveForward
                    else g)
                 else if code = Key_B then
                   (if moves (playerLogic g) \<le> 0
                    then triggerGameOver g ''You have run out of moves.''
                    else if canMoveBack (dungeonLogic g) then startTransition g cb_moveBack
                    else g)
                 else if code = Key_C then
                   (case getCurrentRoom (dungeonLogic g) of
                      None \<Rightarrow> g
                    | Some room \<Rightarrow>
                        if inSwordRoomWithSword (dungeonLogic g)
                        then startTransition g (cb_collectSword room)
                        else g)
                 else if code = Key_Q then
                   (if \<not> inSwordRoomWithSword (dungeonLogic g) then changeScreen g MENU else g)
                 else g
             | COMBAT \<Rightarrow>
                 if code = Key_F then startTransition g cb_handleCombat
                 else if code = Key_R
                 then triggerGameOver (addAction g ''Fled in terror!'') ''You fled in terror!''
                 else g
             | CHOICE \<Rightarrow>
                 if code = Key_Num1 \<or> code = Key_Numpad1 then startTransition g (cb_handleChoice 1)
                 else if code = Key_Num2 \<or> code = Key_Numpad2
                 then startTransition g (cb_handleChoice 2)
                 else g
             | MESSAGE \<Rightarrow>
                 if code = Key_Enter then startTransition g cb_exploring else g))"

text \<open>
  \<^verbatim>\<open>GamePlayScreen::update\<close>. \<open>runTransitionCallback\<close> is the call of
  \<^verbatim>\<open>onTransitionComplete\<close> with the reset that follows it; \<open>fade_done\<close> is \<^verbatim>\<open>t >= 1.0f\<close>.
\<close>

definition runTransitionCallback :: "game \<Rightarrow> exn + game" where
  "runTransitionCallback g =
     (case onTransitionComplete g of
        None \<Rightarrow> Inr g
      | Some cb \<Rightarrow>
          (case runCallback cb g of
             Inl e \<Rightarrow> Inl e
           | Inr g \<Rightarrow> Inr (g\<lparr>onTransitionComplete := None\<rparr>)))"

definition GamePlayScreen_update :: "bool \<Rightarrow> game \<Rightarrow> exn + game" where
  "GamePlayScreen_update fade_done g =
     (if transitionState g \<noteq> Gp_NONE then
        (if transitionState g = Gp_FADING_OUT then
           (if fade_done then
              (case runTransitionCallback g of
                 Inl e \<Rightarrow> Inl e
               | Inr g \<Rightarrow>
                   if moves (playerLogic g) < 0
                   then Inr (triggerGameOver g ''You have run out of moves.'')
                   else Inr ((checkRoomState g)\<lparr>transitionState := Gp_FADING_IN\<rparr>))
            else Inr g)
         else (if fade_done then Inr (g\<lparr>transitionState := Gp_NONE\<rparr>) else Inr g))
      else Inr g)"

definition onEnter :: "game \<Rightarrow> game" where
  "onEnter g =
     checkRoomState (addAction (g\<lparr>actionsLog := [], m_isNewRoomEntry := True\<rparr>)
                       ''Your adventure begins...'')"

subsection \<open>Setting up a session\<close>

text \<open>
  \<^verbatim>\<open>setupDungeon\<close> allocates the nine rooms, here at the addresses 0 to 8, and links them
  with \<^verbatim>\<open>addRoom\<close>. Each room is given below as \<^verbatim>\<open>setupDungeon\<close> has it before the first
  \<^verbatim>\<open>addRoom\<close>: as constructed, with its entity and flags set. A new \<^verbatim>\<open>Dungeon\<close> has no
  room; the store then holds a blank room at every address.
\<close>

definition entrance :: room where
  "entrance =
     Room ''Dungeon Entrance''
       ''The heavy stone door slams shut behind you. Your only way is forward.''
       ''dungeon.png''"

definition wizardStudy :: room where
  "wizardStudy =
     (Room ''Sanctum of Fire and Frost''
        ''You dare enter my domain, mortal? The fire and frost bend to my will. If you wish to pass, you must defeat me first.''
        ''wizard.png'')
     \<lparr>entity := Some (Enemy MinionEnemy ''Wizard'' 10)\<rparr>"

definition dragonLair :: room where
  "dragonLair =
     (Room ''Dragon's Lair''
        ''The air is hot and smells of sulfur. A scaly beast awakens from its slumber.''
        ''dragon.png'')
     \<lparr>entity := Some (Enemy MinionEnemy ''Dragon'' 15)\<rparr>"

definition zombieCrypt :: room where
  "zombieCrypt =
     (Room ''Zombie's Crypt''
        ''Dust swirls through shafts of cold light. From the gloom, a corpse lurches forward with dead, hungry eyes.''
        ''zombie.png'')
     \<lparr>entity := Some (Enemy MinionEnemy ''Zombie'' 5)\<rparr>"

definition weaponRoom :: room where
  "weaponRoom =
     (Room ''Chamber of the Cursed Blades''
        ''Dark swords float mid-air, glowing with runes. A red sigil burns behind them, pulsing with power.''
        ''sword.png'')
     \<lparr>entity := Some (Item Weapon ''Sword'')\<rparr>"

definition choiceRoom :: room where
  "choiceRoom =
     (Room ''Room of Choice''
        (''The hooded figure looks up from his book. 'You can only take one,' he says. 'The golden key... or the potion that gives you health''
         @ [CHR 0x27])
        ''potion.png'')
     \<lparr>isChoiceRoom := True\<rparr>"

definition monsterDen :: room where
  "monsterDen =
     (Room ''Giant Monster's Den''
        ''Huge claw marks scar the walls. A hulking creature guards the path ahead.''
        ''monster.png'')
     \<lparr>entity := Some (Enemy MinionEnemy ''Giant Monster'' 10)\<rparr>"

definition bossChamber :: room where
  "bossChamber =
     (Room ''Final Boss Chamber'' ''This is it. The final guardian.'' ''finalboss.png'')
     \<lparr>entity := Some (Enemy BossEnemy ''Final Boss'' 75)\<rparr>"

definition finalDoor :: room where
  "finalDoor =
     (Room ''The Final Door''
        ''You see a massive, ornate door with a single large keyhole. This must be the exit.''
        ''finaldoor.png'')
     \<lparr>isFinalDoor := True\<rparr>"

definition Dungeon :: dungeon where
  "Dungeon = \<lparr>rooms = (\<lambda>a. Room [] [] []), head = None, currentRoom = None, path_tracker = []\<rparr>"

definition setupDungeon :: "dungeon \<Rightarrow> dungeon option" where
  "setupDungeon dungeon =
     (let dungeon = dungeon\<lparr>rooms := (rooms dungeon)
                      (0 := entrance, 1 := wizardStudy, 2 := dragonLair, 3 := zombieCrypt,
                       4 := weaponRoom, 5 := choiceRoom, 6 := monsterDen, 7 := bossChamber,
                       8 := finalDoor)\<rparr>
      in do {
           dungeon \<leftarrow> addRoom dungeon 0;
           dungeon \<leftarrow> addRoom dungeon 1;
           dungeon \<leftarrow> addRoom dungeon 2;
           dungeon \<leftarrow> addRoom dungeon 3;
           dungeon \<leftarrow> addRoom dungeon 4;
           dungeon \<leftarrow> addRoom dungeon 5;
           dungeon \<leftarrow> addRoom dungeon 6;
           dungeon \<leftarrow> addRoom dungeon 7;
           addRoom dungeon 8
         })"

text \<open>
  \<^verbatim>\<open>Game::startGameplay\<close>, with \<^verbatim>\<open>Game::playerName\<close> as its argument. The new
  \<^verbatim>\<open>GamePlayScreen\<close> has the initial values of its member declarations.
\<close>

definition startGameplay :: "string \<Rightarrow> game \<Rightarrow> game option" where
  "startGameplay playerName g =
     do {
       d \<leftarrow> setupDungeon Dungeon;
       Some (changeScreen
               (g\<lparr>playerLogic := Player playerName 100 10, dungeonLogic := d,
                  currentState := EXPLORING, transitionState := Gp_NONE,
                  onTransitionComplete := None, message := [], actionsLog := [],
                  m_isNewRoomEntry := True\<rparr>)
               GAMEPLAY)
     }"

subsection \<open>The main loop\<close>

text \<open>
  \<^verbatim>\<open>Game::handleScreenTransition\<close>; \<open>fade_done\<close> is \<^verbatim>\<open>t >= 1.0f\<close> for the clock of the
  screen change. Of the screens, only the \<^verbatim>\<open>GamePlayScreen\<close> has an \<^verbatim>\<open>onEnter\<close> that
  touches the game logic.
\<close>

definition handleScreenTransition :: "bool \<Rightarrow> game \<Rightarrow> game" where
  "handleScreenTransition fade_done g =
     (if currentTransition g = TS_NONE then g
      else if currentTransition g = TS_FADING_OUT then
        (if fade_done then
           (let g = g\<lparr>currentStateID := nextStateID g\<rparr>;
                g = (if currentStateID g = GAMEPLAY then onEnter g else g)
            in g\<lparr>currentTransition := TS_FADING_IN\<rparr>)
         else g)
      else (if fade_done then g\<lparr>currentTransition := TS_NONE\<rparr> else g))"

text \<open>
  One event of \<^verbatim>\<open>Game::processEvents\<close> and one call of \<^verbatim>\<open>Game::update\<close>. The menu and
  the name input screen are outside the session (a new session starts from
  \<^verbatim>\<open>startGameplay\<close> again); their events leave the state as it is.
\<close>

definition Game_processEvent :: "event \<Rightarrow> game \<Rightarrow> game" where
  "Game_processEvent ev g =
     (if currentTransition g = TS_NONE then
        (if currentStateID g = GAMEPLAY then GamePlayScreen_handleEvent ev g
         else if currentStateID g = GAME_OVER then
           (if ev = KeyPressed Key_Enter then changeScreen g MENU else g)
         else g)
      else g)"

definition Game_update :: "bool \<Rightarrow> bool \<Rightarrow> game \<Rightarrow> exn + game" where
  "Game_update gp_fade_done fade_done g =
     (case (if currentTransition g = TS_NONE \<and> currentStateID g = GAMEPLAY
            then GamePlayScreen_update gp_fade_done g else Inr g) of
        Inl e \<Rightarrow> Inl e
      | Inr g \<Rightarrow> Inr (handleScreenTransition fade_done g))"

text \<open>
  The states of a session: \<^verbatim>\<open>startGameplay\<close> is called by the name input screen, which
  receives events only while no screen change is running; then events and updates
  follow in any order.
\<close>

inductive reachable :: "game \<Rightarrow> bool" where
  start:
    "currentStateID g0 = NAME_INPUT \<Longrightarrow> currentTransition g0 = TS_NONE
       \<Longrightarrow> startGameplay playerName g0 = Some g \<Longrightarrow> reachable g"
| processEvent: "reachable g \<Longrightarrow> reachable (Game_processEvent ev g)"
| update: "reachable g \<Longrightarrow> Game_update gp_fade_done fade_done g = Inr g' \<Longrightarrow> reachable g'"

text \<open>The states that later events and updates lead to from a given state.\<close>

inductive steps :: "game \<Rightarrow> game \<Rightarrow> bool" where
  refl: "steps g g"
| processEvent: "steps g g' \<Longrightarrow> steps g (Game_processEvent ev g')"
| update: "steps g g' \<Longrightarrow> Game_update gp_fade_done fade_done g' = Inr g'' \<Longrightarrow> steps g g''"

subsection \<open>Sequences of damage and healing\<close>

text \<open>
  A call of \<^verbatim>\<open>takeDamage\<close> or of \<^verbatim>\<open>heal\<close>, and the amounts of the data model: the damage
  of an enemy is an integer that is at least 0; a heal amount is at least 0 and at most
  \<^verbatim>\<open>INT_MAX\<close> - 100, so that the 32-bit sum with a health of up to 100 does not overflow.
  The program itself passes the damages 10, 15, 5, 10, 75 and 50 and heals by 100 only.
\<close>

datatype health_op = TakeDamage int | Heal int

fun amount_ok :: "health_op \<Rightarrow> bool" where
  "amount_ok (TakeDamage d) = (0 \<le> d)"
| "amount_ok (Heal a) = (0 \<le> a \<and> a \<le> INT_MAX - 100)"

fun apply_op :: "player \<Rightarrow> health_op \<Rightarrow> player" where
  "apply_op p (TakeDamage d) = snd (takeDamage p d)"
| "apply_op p (Heal a) = heal p a"

fun apply_ops :: "player \<Rightarrow> health_op list \<Rightarrow> player" where
  "apply_ops p [] = p"
| "apply_ops p (x # xs) = apply_ops (apply_op p x) xs"

subsection \<open>Example states\<close>

definition hero :: player where
  "hero = Player ''hero'' 100 10"

definition two_rooms :: dungeon where
  "two_rooms =
     \<lparr>rooms = (\<lambda>a. Room [] [] [])
        (0 := (Room ''Dungeon Entrance'' ''Your only way is forward.'' ''dungeon.png'')
                \<lparr>next := Some 1\<rparr>,
         1 := (Room ''The Final Door'' ''This must be the exit.'' ''finaldoor.png'')
                \<lparr>isFinalDoor := True\<rparr>),
      head = Some 0, currentRoom = Some 0, path_tracker = []\<rparr>"

definition one_room :: "room \<Rightarrow> dungeon" where
  "one_room r = \<lparr>rooms = (\<lambda>a. r), head = Some 0, currentRoom = Some 0, path_tracker = []\<rparr>"

definition playing :: "player \<Rightarrow> dungeon \<Rightarrow> InteractionState \<Rightarrow> game" where
  "playing p d st =
     \<lparr>playerLogic = p, dungeonLogic = d, currentStateID = GAMEPLAY, nextStateID = GAMEPLAY,
      currentTransition = TS_NONE, gameOverScreen = None, currentState = st,
      transitionState = Gp_NONE, onTransitionComplete = None, message = [], actionsLog = [],
      m_isNewRoomEntry = False\<rparr>"

definition at_name_input :: game where
  "at_name_input =
     (playing hero two_rooms EXPLORING)\<lparr>currentStateID := NAME_INPUT, nextStateID := NAME_INPUT\<rparr>"

definition pending_move :: game where
  "pending_move =
     (playing (hero\<lparr>moves := 0\<rparr>) two_rooms EXPLORING)
       \<lparr>transitionState := Gp_FADING_OUT, onTransitionComplete := Some cb_moveForward\<rparr>"

subsection \<open>The invariant of the move counter\<close>

text \<open>
  A closure that navigates is waiting to run; and the invariant: the moves are not
  negative, and at least 1 while such a closure waits.
\<close>

definition navigation_pending :: "game \<Rightarrow> bool" where
  "navigation_pending g =
     (onTransitionComplete g = Some cb_moveForward \<or> onTransitionComplete g = Some cb_moveBack)"

definition moves_inv :: "game \<Rightarrow> bool" where
  "moves_inv g =
     (0 \<le> moves (playerLogic g) \<and> (navigation_pending g \<longrightarrow> 1 \<le> moves (playerLogic g)))"

subsection \<open>The dungeon of a session and its invariant\<close>

text \<open>
  The store that \<^verbatim>\<open>setupDungeon\<close> builds: the nine rooms at the addresses 0 to 8, each
  linked to the next.
\<close>

definition built :: "addr \<Rightarrow> room" where
  "built =
     (\<lambda>a. Room [] [] [])
       (0 := entrance\<lparr>next := Some 1\<rparr>, 1 := wizardStudy\<lparr>next := Some 2\<rparr>,
        2 := dragonLair\<lparr>next := Some 3\<rparr>, 3 := zombieCrypt\<lparr>next := Some 4\<rparr>,
        4 := weaponRoom\<lparr>next := Some 5\<rparr>, 5 := choiceRoom\<lparr>next := Some 6\<rparr>,
        6 := monsterDen\<lparr>next := Some 7\<rparr>, 7 := bossChamber\<lparr>next := Some 8\<rparr>,
        8 := finalDoor)"

text \<open>
  What a room of a session keeps of the room it was built as: its link and its final-door
  flag; its choice flag and its entity unless they have been cleared. The rooms 0 and 1
  are where the cursor and the path tracker stay as long as the wizard of room 1 is there.
\<close>

definition descends :: "room \<Rightarrow> room \<Rightarrow> bool" where
  "descends r b =
     (next r = next b \<and> isFinalDoor r = isFinalDoor b \<and> (isChoiceRoom r \<longrightarrow> isChoiceRoom b)
      \<and> (entity r = None \<or> entity r = entity b))"

definition near :: "room_ptr \<Rightarrow> bool" where
  "near r = (r = Some 0 \<or> r = Some 1)"

text \<open>
  The invariant of a session. The rooms descend from the built ones; the health is in
  [0, 100]; the key is held only once the choice of room 5 is made; the health is at most
  90 while that choice is open and the wizard is gone. An enemy in the current room means
  the COMBAT state, a closure that moves forward waits only where no enemy is, and the
  closure that collects the sword is for room 4.
\<close>

definition world_inv :: "game \<Rightarrow> bool" where
  "world_inv g =
     ((\<forall>a. descends (rooms (dungeonLogic g) a) (built a))
      \<and> 0 \<le> health (playerLogic g) \<and> health (playerLogic g) \<le> 100
      \<and> (hasItem (playerLogic g) ''Golden Key'' \<longrightarrow> \<not> isChoiceRoom (rooms (dungeonLogic g) 5))
      \<and> (isChoiceRoom (rooms (dungeonLogic g) 5) \<and> entity (rooms (dungeonLogic g) 1) = None
           \<longrightarrow> health (playerLogic g) \<le> 90))"

definition nav_inv :: "game \<Rightarrow> bool" where
  "nav_inv g =
     (entity (rooms (dungeonLogic g) 1) \<noteq> None \<longrightarrow>
        near (currentRoom (dungeonLogic g))
        \<and> (\<forall>r \<in> set (path_tracker (dungeonLogic g)). near r))"

definition enemy_here :: "game \<Rightarrow> bool" where
  "enemy_here g =
     (case currentRoom (dungeonLogic g) of
        None \<Rightarrow> False
      | Some a \<Rightarrow>
          (case entity (rooms (dungeonLogic g) a) of None \<Rightarrow> False | Some e \<Rightarrow> is_Enemy e))"

definition session_inv :: "game \<Rightarrow> bool" where
  "session_inv g =
     (world_inv g \<and> nav_inv g
      \<and> (enemy_here g \<longrightarrow> currentState g = COMBAT)
      \<and> (onTransitionComplete g = Some cb_moveForward \<longrightarrow> \<not> enemy_here g)
      \<and> (\<forall>r. onTransitionComplete g = Some (cb_collectSword r) \<longrightarrow> r = 4))"

subsection \<open>Playing a session\<close>

text \<open>
  Runs of the main loop: a list of events and updates, given to \<^verbatim>\<open>Game::processEvents\<close>
  and \<^verbatim>\<open>Game::update\<close> in order. \<open>enter\<close> completes the two fades of the change to the
  gameplay screen; \<open>press_F\<close> is the key F followed by the two fades of a room
  transition.
\<close>

datatype input = Event event | Update bool bool

fun play :: "input list \<Rightarrow> game \<Rightarrow> exn + game" where
  "play [] g = Inr g"
| "play (Event ev # is) g = play is (Game_processEvent ev g)"
| "play (Update gp_fade_done fade_done # is) g =
     (case Game_update gp_fade_done fade_done g of Inl e \<Rightarrow> Inl e | Inr g' \<Rightarrow> play is g')"

definition enter :: "input list" where
  "enter = [Update False True, Update False True]"

definition press_F :: "input list" where
  "press_F = [Event (KeyPressed Key_F), Update True False, Update True False]"

text \<open>
  No fade is running on the gameplay screen; and the interaction state that
  \<^verbatim>\<open>checkRoomState\<close> gives a room that is not the final door and whose entity, if any,
  is an enemy or the sword.
\<close>

definition settled :: "game \<Rightarrow> bool" where
  "settled g =
     (transitionState g = Gp_NONE \<and> currentTransition g = TS_NONE \<and> currentStateID g = GAMEPLAY)"

definition room_state :: "room \<Rightarrow> InteractionState" where
  "room_state r =
     (case entity r of
        Some e \<Rightarrow> if is_Enemy e then COMBAT else EXPLORING
      | None \<Rightarrow> if isChoiceRoom r then CHOICE else EXPLORING)"

text \<open>
  A session on its way down the dungeon: the player, the cursor, the path tracker and the
  interaction state, with the rooms after the cursor still as built.
\<close>

definition walking ::
  "game \<Rightarrow> player \<Rightarrow> addr \<Rightarrow> room_ptr list \<Rightarrow> InteractionState \<Rightarrow> bool" where
  "walking g p c tr st =
     (settled g \<and> playerLogic g = p \<and> currentRoom (dungeonLogic g) = Some c
      \<and> path_tracker (dungeonLogic g) = tr \<and> currentState g = st
      \<and> next (rooms (dungeonLogic g) c) = next (built c)
      \<and> (st \<noteq> EXPLORING \<longrightarrow> rooms (dungeonLogic g) c = built c)
      \<and> (\<forall>x > c. rooms (dungeonLogic g) x = built x))"

text \<open>
  Two runs from the name input screen: to the first room after the entrance, and to the
  room of choice (three fights on the way); and the states that they end in.
\<close>

definition first_room :: "input list" where
  "first_room = enter @ press_F"

definition to_choice_room :: "input list" where
  "to_choice_room =
     enter @ press_F @ press_F @ press_F @ press_F @ press_F @ press_F @ press_F @ press_F"

definition new_session :: game where
  "new_session = (case startGameplay ''hero'' at_name_input of Some g \<Rightarrow> g | None \<Rightarrow> at_name_input)"

definition session_after :: "input list \<Rightarrow> game" where
  "session_after is = (case play is new_session of Inr g \<Rightarrow> g | Inl e \<Rightarrow> new_session)"

section \<open>Properties\<close>

subsection \<open>Player\<close>

lemma health_takeDamage:
  "health (snd (takeDamage p d)) = (if health p - d < 0 then 0 else health p - d)"
  by (simp add: takeDamage_def Let_def)

lemma wrap_int_id: "- 2147483648 \<le> x \<Longrightarrow> x \<le> 2147483647 \<Longrightarrow> wrap_int x = x"
  by (simp add: wrap_int_def)

lemma health_heal: "health (heal p a) = min 100 (wrap_int (health p + a))"
  by (simp add: heal_def)

lemma health_heal_100:
  "0 \<le> health p \<Longrightarrow> health p \<le> 100 \<Longrightarrow> health (heal p 100) = 100"
  by (simp add: health_heal wrap_int_id)

lemma apply_op_range:
  "0 \<le> health p \<Longrightarrow> health p \<le> 100 \<Longrightarrow> amount_ok x
    \<Longrightarrow> 0 \<le> health (apply_op p x) \<and> health (apply_op p x) \<le> 100"
  by (cases x) (auto simp: health_takeDamage health_heal wrap_int_id INT_MAX_def)

lemma apply_ops_range:
  "0 \<le> health p \<Longrightarrow> health p \<le> 100 \<Longrightarrow> \<forall>x \<in> set ops. amount_ok x
    \<Longrightarrow> 0 \<le> health (apply_ops p ops) \<and> health (apply_ops p ops) \<le> 100"
proof (induction ops arbitrary: p)
  case Nil
  then show ?case by simp
next
  case (Cons x xs)
  have "0 \<le> health (apply_op p x) \<and> health (apply_op p x) \<le> 100"
    using Cons.prems by (intro apply_op_range) auto
  then show ?case using Cons.IH [of "apply_op p x"] Cons.prems by simp
qed

subsection \<open>Stack and navigation\<close>

lemma moveBack_no_throw: "\<exists>r. moveBack p d = Inr r"
  by (simp add: moveBack_def canMoveBack_def Stack_top_def)

text \<open>
  C7, as stated, fails: \<^verbatim>\<open>top\<close> on an empty stack is not a no-op, it throws
  \<^verbatim>\<open>std::runtime_error\<close>.
\<close>

theorem Stack_top_empty_throws:
  "Stack_top ([] :: room_ptr Stack) = Inl (runtime_error ''Stack is empty.'')"
  by (simp add: Stack_top_def Stack_isEmpty_def)

text \<open>
  C7, amended: \<^verbatim>\<open>pop\<close> on an empty stack is a no-op (the stack is unchanged and nothing
  fails); \<^verbatim>\<open>top\<close> on an empty stack fails by throwing \<^verbatim>\<open>std::runtime_error\<close> with the
  text "Stack is empty.".
\<close>

theorem empty_Stack_pop_top:
  "Stack_isEmpty st
    \<Longrightarrow> Stack_pop st = st \<and> Stack_top st = Inl (runtime_error ''Stack is empty.'')"
  by (simp add: Stack_pop_def Stack_top_def)

theorem empty_Stack_pop_top_witness:
  "Stack_isEmpty ([] :: room_ptr Stack) \<and> Stack_pop ([] :: room_ptr Stack) = []
   \<and> Stack_top ([] :: room_ptr Stack) = Inl (runtime_error ''Stack is empty.'')"
  using empty_Stack_pop_top [of "[] :: room_ptr Stack"] by (simp add: Stack_isEmpty_def)

text \<open>
  C4: if the room under the cursor has a successor, \<^verbatim>\<open>moveForward\<close> takes 1 from the
  moves, pushes the room the cursor was on onto the path tracker and puts the cursor on
  the successor; if there is no cursor or no successor it changes nothing. If the path
  tracker is not empty, \<^verbatim>\<open>moveBack\<close> takes 1 from the moves and pops the top of the
  tracker into the cursor; if the tracker is empty it changes nothing.
\<close>

theorem moveForward_moveBack_effect:
  "(currentRoom d = Some a \<and> next (rooms d a) = Some b \<longrightarrow>
      moveForward p d =
        (p\<lparr>moves := moves p - 1\<rparr>,
         d\<lparr>path_tracker := Some a # path_tracker d, currentRoom := Some b\<rparr>))
   \<and> ((\<forall>a. currentRoom d = Some a \<longrightarrow> next (rooms d a) = None) \<longrightarrow> moveForward p d = (p, d))
   \<and> (path_tracker d = r # rest \<longrightarrow>
        moveBack p d =
          Inr (p\<lparr>moves := moves p - 1\<rparr>, d\<lparr>currentRoom := r, path_tracker := rest\<rparr>))
   \<and> (path_tracker d = [] \<longrightarrow> moveBack p d = Inr (p, d))"
  by (auto simp: moveForward_def moveBack_def canMoveForward_def canMoveBack_def useMove_def
      Stack_push_def Stack_pop_def Stack_top_def Stack_isEmpty_def split: option.splits)

theorem moveForward_moveBack_effect_witness:
  "moveForward hero two_rooms =
     (hero\<lparr>moves := 9\<rparr>, two_rooms\<lparr>path_tracker := [Some 0], currentRoom := Some 1\<rparr>)
   \<and> moveBack hero two_rooms = Inr (hero, two_rooms)
   \<and> moveForward hero (two_rooms\<lparr>path_tracker := [Some 0], currentRoom := Some 1\<rparr>) =
       (hero, two_rooms\<lparr>path_tracker := [Some 0], currentRoom := Some 1\<rparr>)
   \<and> moveBack hero (two_rooms\<lparr>path_tracker := [Some 0], currentRoom := Some 1\<rparr>) =
       Inr (hero\<lparr>moves := 9\<rparr>, two_rooms\<lparr>currentRoom := Some 0, path_tracker := []\<rparr>)"
  using moveForward_moveBack_effect [of two_rooms 0 1 hero undefined undefined]
    moveForward_moveBack_effect
      [of "two_rooms\<lparr>path_tracker := [Some 0], currentRoom := Some 1\<rparr>" 0 1 hero "Some 0" "[]"]
  by (simp add: two_rooms_def hero_def Player_def Room_def)

text \<open>
  C9: where the room under the cursor has a successor, \<^verbatim>\<open>moveForward\<close> followed by
  \<^verbatim>\<open>moveBack\<close> leaves the dungeon as it was (the cursor on the same room, the path
  tracker with the same contents) and the player with 2 moves less.
\<close>

theorem moveForward_then_moveBack:
  "currentRoom d = Some a \<Longrightarrow> next (rooms d a) = Some b \<Longrightarrow> moveForward p d = (p1, d1)
    \<Longrightarrow> moveBack p1 d1 = Inr (p\<lparr>moves := moves p - 2\<rparr>, d)"
  by (auto simp: moveForward_def moveBack_def canMoveForward_def canMoveBack_def useMove_def
      Stack_push_def Stack_pop_def Stack_top_def Stack_isEmpty_def split: option.splits)

theorem moveForward_then_moveBack_witness:
  "moveBack (fst (moveForward hero two_rooms)) (snd (moveForward hero two_rooms)) =
     Inr (hero\<lparr>moves := 8\<rparr>, two_rooms)"
  using moveForward_then_moveBack [of two_rooms 0 1 hero "fst (moveForward hero two_rooms)"
    "snd (moveForward hero two_rooms)"]
  by (simp add: two_rooms_def hero_def Player_def Room_def)

subsection \<open>Item interaction\<close>

lemma Inventory_has_iff: "Inventory_has xs x \<longleftrightarrow> x \<in> set xs"
  by (induction xs) auto

subsection \<open>What the engine functions leave unchanged\<close>

lemma addAction_fields [simp]:
  "playerLogic (addAction g x) = playerLogic g"
  "dungeonLogic (addAction g x) = dungeonLogic g"
  "currentStateID (addAction g x) = currentStateID g"
  "nextStateID (addAction g x) = nextStateID g"
  "currentTransition (addAction g x) = currentTransition g"
  "gameOverScreen (addAction g x) = gameOverScreen g"
  "currentState (addAction g x) = currentState g"
  "transitionState (addAction g x) = transitionState g"
  "onTransitionComplete (addAction g x) = onTransitionComplete g"
  "message (addAction g x) = message g"
  "m_isNewRoomEntry (addAction g x) = m_isNewRoomEntry g"
  by (simp_all add: addAction_def Let_def)

lemma changeScreen_fields [simp]:
  "playerLogic (changeScreen g x) = playerLogic g"
  "dungeonLogic (changeScreen g x) = dungeonLogic g"
  "currentStateID (changeScreen g x) = currentStateID g"
  "gameOverScreen (changeScreen g x) = gameOverScreen g"
  "currentState (changeScreen g x) = currentState g"
  "transitionState (changeScreen g x) = transitionState g"
  "onTransitionComplete (changeScreen g x) = onTransitionComplete g"
  "message (changeScreen g x) = message g"
  "actionsLog (changeScreen g x) = actionsLog g"
  "m_isNewRoomEntry (changeScreen g x) = m_isNewRoomEntry g"
  by (simp_all add: changeScreen_def)

lemma triggerGameOver_fields [simp]:
  "playerLogic (triggerGameOver g x) = playerLogic g"
  "dungeonLogic (triggerGameOver g x) = dungeonLogic g"
  "currentStateID (triggerGameOver g x) = currentStateID g"
  "currentState (triggerGameOver g x) = currentState g"
  "transitionState (triggerGameOver g x) = transitionState g"
  "onTransitionComplete (triggerGameOver g x) = onTransitionComplete g"
  "message (triggerGameOver g x) = message g"
  "actionsLog (triggerGameOver g x) = actionsLog g"
  "m_isNewRoomEntry (triggerGameOver g x) = m_isNewRoomEntry g"
  by (simp_all add: triggerGameOver_def Let_def)

lemma triggerGameOver_screen:
  "gameOverScreen (triggerGameOver g x) =
     Some (GameOverScreen_new x
       (case currentRoom (dungeonLogic g) of Some a \<Rightarrow> backgroundID (rooms (dungeonLogic g) a)
        | None \<Rightarrow> ''dungeon.png''))"
  by (simp add: triggerGameOver_def Let_def getCurrentRoom_def)

lemma triggerGameOver_change:
  "currentTransition g = TS_NONE \<Longrightarrow> currentStateID g \<noteq> GAME_OVER
    \<Longrightarrow> nextStateID (triggerGameOver g x) = GAME_OVER
      \<and> currentTransition (triggerGameOver g x) = TS_FADING_OUT"
  by (auto simp add: triggerGameOver_def Let_def changeScreen_def)

lemma startTransition_fields [simp]:
  "playerLogic (startTransition g x) = playerLogic g"
  "dungeonLogic (startTransition g x) = dungeonLogic g"
  "currentStateID (startTransition g x) = currentStateID g"
  "nextStateID (startTransition g x) = nextStateID g"
  "currentTransition (startTransition g x) = currentTransition g"
  "gameOverScreen (startTransition g x) = gameOverScreen g"
  "currentState (startTransition g x) = currentState g"
  "message (startTransition g x) = message g"
  "actionsLog (startTransition g x) = actionsLog g"
  "m_isNewRoomEntry (startTransition g x) = m_isNewRoomEntry g"
  by (simp_all add: startTransition_def)

lemma update_room_fields [simp]:
  "playerLogic (update_room a f g) = playerLogic g"
  "currentRoom (dungeonLogic (update_room a f g)) = currentRoom (dungeonLogic g)"
  "path_tracker (dungeonLogic (update_room a f g)) = path_tracker (dungeonLogic g)"
  "head (dungeonLogic (update_room a f g)) = head (dungeonLogic g)"
  "rooms (dungeonLogic (update_room a f g)) = (rooms (dungeonLogic g))(a := f (rooms (dungeonLogic g) a))"
  "currentStateID (update_room a f g) = currentStateID g"
  "nextStateID (update_room a f g) = nextStateID g"
  "currentTransition (update_room a f g) = currentTransition g"
  "gameOverScreen (update_room a f g) = gameOverScreen g"
  "currentState (update_room a f g) = currentState g"
  "transitionState (update_room a f g) = transitionState g"
  "onTransitionComplete (update_room a f g) = onTransitionComplete g"
  "message (update_room a f g) = message g"
  "actionsLog (update_room a f g) = actionsLog g"
  "m_isNewRoomEntry (update_room a f g) = m_isNewRoomEntry g"
  by (simp_all add: update_room_def)

lemma moves_Item_interact [simp]: "moves (fst (Item_interact e p)) = moves p"
  by (simp add: Item_interact_def heal_def collectItem_def)

lemma moves_takeDamage [simp]: "moves (snd (takeDamage p d)) = moves p"
  by (simp add: takeDamage_def Let_def)

lemma handleItemInteraction_frame [simp]:
  "moves (playerLogic (handleItemInteraction g)) = moves (playerLogic g)"
  "onTransitionComplete (handleItemInteraction g) = onTransitionComplete g"
  "transitionState (handleItemInteraction g) = transitionState g"
  "currentRoom (dungeonLogic (handleItemInteraction g)) = currentRoom (dungeonLogic g)"
  "path_tracker (dungeonLogic (handleItemInteraction g)) = path_tracker (dungeonLogic g)"
  by (simp_all add: handleItemInteraction_def Let_def split_beta split: option.splits)

lemma checkRoomState_frame [simp]:
  "moves (playerLogic (checkRoomState g)) = moves (playerLogic g)"
  "onTransitionComplete (checkRoomState g) = onTransitionComplete g"
  "transitionState (checkRoomState g) = transitionState g"
  "currentRoom (dungeonLogic (checkRoomState g)) = currentRoom (dungeonLogic g)"
  "path_tracker (dungeonLogic (checkRoomState g)) = path_tracker (dungeonLogic g)"
  by (simp_all add: checkRoomState_def Let_def split: option.splits)

lemma handleCombat_frame [simp]:
  "moves (playerLogic (handleCombat g)) = moves (playerLogic g)"
  "onTransitionComplete (handleCombat g) = onTransitionComplete g"
  "transitionState (handleCombat g) = transitionState g"
  "currentRoom (dungeonLogic (handleCombat g)) = currentRoom (dungeonLogic g)"
  "path_tracker (dungeonLogic (handleCombat g)) = path_tracker (dungeonLogic g)"
  by (simp_all add: handleCombat_def Let_def split_beta setBossDefeated_def split: option.splits)

lemma handleChoice_frame [simp]:
  "moves (playerLogic (handleChoice g c)) = moves (playerLogic g)"
  "onTransitionComplete (handleChoice g c) = onTransitionComplete g"
  "transitionState (handleChoice g c) = transitionState g"
  "currentRoom (dungeonLogic (handleChoice g c)) = currentRoom (dungeonLogic g)"
  "path_tracker (dungeonLogic (handleChoice g c)) = path_tracker (dungeonLogic g)"
  by (simp_all add: handleChoice_def Let_def heal_def collectItem_def split: option.splits)

lemma onEnter_frame [simp]:
  "moves (playerLogic (onEnter g)) = moves (playerLogic g)"
  "onTransitionComplete (onEnter g) = onTransitionComplete g"
  "transitionState (onEnter g) = transitionState g"
  by (simp_all add: onEnter_def)

lemma handleScreenTransition_frame [simp]:
  "moves (playerLogic (handleScreenTransition b g)) = moves (playerLogic g)"
  "onTransitionComplete (handleScreenTransition b g) = onTransitionComplete g"
  "transitionState (handleScreenTransition b g) = transitionState g"
  by (simp_all add: handleScreenTransition_def Let_def)

lemma rooms_moveForward [simp]: "rooms (snd (moveForward p d)) = rooms d"
  by (simp add: moveForward_def)

lemma rooms_moveBack: "moveBack p d = Inr (p', d') \<Longrightarrow> rooms d' = rooms d"
  by (auto simp: moveBack_def split: if_splits sum.splits)

lemma handleEvent_dungeonLogic [simp]:
  "dungeonLogic (GamePlayScreen_handleEvent ev g) = dungeonLogic g"
  by (simp add: GamePlayScreen_handleEvent_def
      split: event.splits InteractionState.splits option.splits)

lemma handleEvent_moves [simp]:
  "moves (playerLogic (GamePlayScreen_handleEvent ev g)) = moves (playerLogic g)"
  by (simp add: GamePlayScreen_handleEvent_def split: event.splits InteractionState.splits option.splits)

lemma one_room_simps [simp]:
  "currentRoom (one_room r) = Some 0" "rooms (one_room r) a = r" "path_tracker (one_room r) = []"
  by (simp_all add: one_room_def)

lemma playing_simps [simp]:
  "playerLogic (playing p d st) = p" "dungeonLogic (playing p d st) = d"
  "currentStateID (playing p d st) = GAMEPLAY" "currentTransition (playing p d st) = TS_NONE"
  "gameOverScreen (playing p d st) = None" "currentState (playing p d st) = st"
  "transitionState (playing p d st) = Gp_NONE" "onTransitionComplete (playing p d st) = None"
  by (simp_all add: playing_def)

lemma two_rooms_simps [simp]:
  "currentRoom two_rooms = Some 0" "next (rooms two_rooms 0) = Some 1"
  "backgroundID (rooms two_rooms 0) = ''dungeon.png''" "path_tracker two_rooms = []"
  by (simp_all add: two_rooms_def Room_def)

lemma room_flags [simp]:
  "isFinalDoor finalDoor" "backgroundID finalDoor = ''finaldoor.png''"
  "entity bossChamber = Some (Enemy BossEnemy ''Final Boss'' 75)"
  "isChoiceRoom choiceRoom"
  "entity monsterDen = Some (Enemy MinionEnemy ''Giant Monster'' 10)"
  by (simp_all add: finalDoor_def bossChamber_def choiceRoom_def monsterDen_def Room_def)

subsection \<open>The engine does not throw\<close>

lemma runCallback_no_throw: "\<exists>g'. runCallback cb g = Inr g'"
proof (cases cb)
  case cb_moveBack
  obtain r where "moveBack (playerLogic g) (dungeonLogic g) = Inr r"
    using moveBack_no_throw by blast
  then show ?thesis using cb_moveBack by (cases r) (simp add: Let_def)
qed (simp_all add: Let_def split_beta)

lemma runTransitionCallback_no_throw: "\<exists>g'. runTransitionCallback g = Inr g'"
proof (cases "onTransitionComplete g")
  case None
  then show ?thesis by (simp add: runTransitionCallback_def)
next
  case (Some cb)
  obtain g1 where "runCallback cb g = Inr g1" using runCallback_no_throw by blast
  then show ?thesis using Some by (simp add: runTransitionCallback_def)
qed

lemma GamePlayScreen_update_no_throw: "\<exists>g'. GamePlayScreen_update b g = Inr g'"
  using runTransitionCallback_no_throw [of g] by (auto simp: GamePlayScreen_update_def)

lemma Game_update_no_throw: "\<exists>g'. Game_update b1 b2 g = Inr g'"
  using GamePlayScreen_update_no_throw [of b1 g] by (auto simp: Game_update_def)

subsection \<open>The final door\<close>

lemma win_reasons:
  "str_contains ''You used the Golden key and escaped. You are VICTORIOUS!'' ''VICTORIOUS''"
  "\<not> str_contains ''The final door is locked tight. The boss must be defeated!'' ''VICTORIOUS''"
  "\<not> str_contains ''The final door is locked. You needed the Golden Key.'' ''VICTORIOUS''"
  "\<not> str_contains ''You have run out of moves.'' ''VICTORIOUS''"
  by simp_all

text \<open>
  C1: when the current room is the final door, \<^verbatim>\<open>checkRoomState\<close> ends the session
  through \<^verbatim>\<open>triggerGameOver\<close>: the game-over screen is a win if and only if the player
  has the "Golden Key" and \<^verbatim>\<open>finalBossDefeated\<close> is true; in every other case it is a
  loss, with one reason when the key is held without the boss defeated and another when
  the key is missing. The change to the game-over screen starts unless the game is in
  the middle of a screen change already (it never is when \<^verbatim>\<open>update\<close> runs).
\<close>

theorem final_door_outcome:
  assumes "getCurrentRoom (dungeonLogic g) = Some a"
    and "isFinalDoor (rooms (dungeonLogic g) a)"
  shows "gameOverScreen (checkRoomState g) =
           Some \<lparr>reason =
                   (if hasItem (playerLogic g) ''Golden Key'' \<and> finalBossDefeated (playerLogic g)
                    then ''You used the Golden key and escaped. You are VICTORIOUS!''
                    else if hasItem (playerLogic g) ''Golden Key''
                    then ''The final door is locked tight. The boss must be defeated!''
                    else ''The final door is locked. You needed the Golden Key.''),
                 finalBgId = backgroundID (rooms (dungeonLogic g) a),
                 win = (hasItem (playerLogic g) ''Golden Key'' \<and> finalBossDefeated (playerLogic g))\<rparr>
         \<and> ''The final door is locked tight. The boss must be defeated!''
             \<noteq> ''The final door is locked. You needed the Golden Key.''
         \<and> (currentTransition g = TS_NONE \<and> currentStateID g \<noteq> GAME_OVER \<longrightarrow>
              nextStateID (checkRoomState g) = GAME_OVER
              \<and> currentTransition (checkRoomState g) = TS_FADING_OUT)"
  using assms
  by (simp add: checkRoomState_def Let_def triggerGameOver_screen triggerGameOver_change
      GameOverScreen_new_def getCurrentRoom_def win_reasons del: str_contains.simps)

theorem final_door_outcome_witness:
  "gameOverScreen (checkRoomState
     (playing (setBossDefeated (collectItem hero ''Golden Key'') True) (one_room finalDoor) EXPLORING)) =
     Some \<lparr>reason = ''You used the Golden key and escaped. You are VICTORIOUS!'',
           finalBgId = ''finaldoor.png'', win = True\<rparr>
   \<and> gameOverScreen (checkRoomState
        (playing (collectItem hero ''Golden Key'') (one_room finalDoor) EXPLORING)) =
     Some \<lparr>reason = ''The final door is locked tight. The boss must be defeated!'',
           finalBgId = ''finaldoor.png'', win = False\<rparr>
   \<and> gameOverScreen (checkRoomState
        (playing (setBossDefeated hero True) (one_room finalDoor) EXPLORING)) =
     Some \<lparr>reason = ''The final door is locked. You needed the Golden Key.'',
           finalBgId = ''finaldoor.png'', win = False\<rparr>
   \<and> nextStateID (checkRoomState
        (playing (setBossDefeated (collectItem hero ''Golden Key'') True) (one_room finalDoor) EXPLORING)) = GAME_OVER"
  using final_door_outcome
      [of "playing (setBossDefeated (collectItem hero ''Golden Key'') True) (one_room finalDoor) EXPLORING" 0]
    final_door_outcome [of "playing (collectItem hero ''Golden Key'') (one_room finalDoor) EXPLORING" 0]
    final_door_outcome [of "playing (setBossDefeated hero True) (one_room finalDoor) EXPLORING" 0]
  by (simp add: getCurrentRoom_def hasItem_def collectItem_def setBossDefeated_def hero_def Player_def
      Inventory_add_def)

subsection \<open>Combat with the boss\<close>

lemma to_string_50_75: "to_string 50 = ''50''" "to_string 75 = ''75''"
  by (simp_all add: to_string_def)

text \<open>
  C2: for every player, fighting the boss of \<^verbatim>\<open>setupDungeon\<close> (a \<^verbatim>\<open>BossEnemy\<close> of damage
  75) applies an effective damage of exactly 50 if the inventory has "Sword" and exactly
  75 if not: the health drops by that amount, clamped at 0, and the message reports it.
  \<^verbatim>\<open>finalBossDefeated\<close> is set to true exactly when the health is above 0 after the
  damage: a flag that was false becomes true if and only if the player survives the hit,
  and the fight never clears a flag that was set.
\<close>

theorem boss_combat:
  assumes "getCurrentRoom (dungeonLogic g) = Some a"
    and "entity (rooms (dungeonLogic g) a) = Some (Enemy BossEnemy n 75)"
  shows "fst (effectiveDamage (playerLogic g) (Enemy BossEnemy n 75)) =
           (if hasItem (playerLogic g) ''Sword'' then 50 else 75)
         \<and> health (playerLogic (handleCombat g)) =
             max 0 (health (playerLogic g) - (if hasItem (playerLogic g) ''Sword'' then 50 else 75))
         \<and> message (handleCombat g) =
             (if hasItem (playerLogic g) ''Sword''
              then ''Your Sword glows, weakening the boss!\<newline>You took 50 damage!''
              else ''You are unarmed against the mighty boss!\<newline>You took 75 damage!'')
         \<and> finalBossDefeated (playerLogic (handleCombat g)) =
             (finalBossDefeated (playerLogic g) \<or> 0 < health (playerLogic (handleCombat g)))
         \<and> (\<not> finalBossDefeated (playerLogic g) \<longrightarrow>
              finalBossDefeated (playerLogic (handleCombat g)) =
                (0 < health (playerLogic (handleCombat g))))"
  using assms
  by (auto simp add: handleCombat_def effectiveDamage_def takeDamage_def Let_def
      setBossDefeated_def to_string_50_75 max_def)

theorem boss_combat_witness:
  "health (playerLogic (handleCombat (playing (collectItem hero ''Sword'') (one_room bossChamber) COMBAT))) = 50
   \<and> finalBossDefeated (playerLogic (handleCombat (playing (collectItem hero ''Sword'') (one_room bossChamber) COMBAT)))
   \<and> health (playerLogic (handleCombat (playing hero (one_room bossChamber) COMBAT))) = 25
   \<and> finalBossDefeated (playerLogic (handleCombat (playing hero (one_room bossChamber) COMBAT)))
   \<and> health (playerLogic (handleCombat (playing (hero\<lparr>health := 60\<rparr>) (one_room bossChamber) COMBAT))) = 0
   \<and> \<not> finalBossDefeated (playerLogic (handleCombat (playing (hero\<lparr>health := 60\<rparr>) (one_room bossChamber) COMBAT)))"
  using boss_combat [of "playing (collectItem hero ''Sword'') (one_room bossChamber) COMBAT" 0 "''Final Boss''"]
    boss_combat [of "playing hero (one_room bossChamber) COMBAT" 0 "''Final Boss''"]
    boss_combat [of "playing (hero\<lparr>health := 60\<rparr>) (one_room bossChamber) COMBAT" 0 "''Final Boss''"]
  by (simp add: getCurrentRoom_def hasItem_def collectItem_def hero_def Player_def Inventory_add_def)

subsection \<open>The room of choice\<close>

lemma handleChoice_result:
  assumes "getCurrentRoom (dungeonLogic g) = Some a"
    and "isChoiceRoom (rooms (dungeonLogic g) a)"
  shows "playerLogic (handleChoice g choice) =
           (if choice = 1 then collectItem (playerLogic g) ''Golden Key''
            else heal (playerLogic g) 100)"
    and "\<not> isChoiceRoom (rooms (dungeonLogic (handleChoice g choice)) a)"
    and "currentState (handleChoice g choice) = EXPLORING"
    and "getCurrentRoom (dungeonLogic (handleChoice g choice)) = Some a"
  using assms by (simp_all add: handleChoice_def Let_def getCurrentRoom_def)

lemma choice_flag_handleItemInteraction:
  "isChoiceRoom (rooms (dungeonLogic (handleItemInteraction g)) a)
    \<Longrightarrow> isChoiceRoom (rooms (dungeonLogic g) a)"
  by (auto simp: handleItemInteraction_def Let_def split_beta split: option.splits if_splits)

lemma choice_flag_checkRoomState:
  "isChoiceRoom (rooms (dungeonLogic (checkRoomState g)) a)
    \<Longrightarrow> isChoiceRoom (rooms (dungeonLogic g) a)"
  by (auto simp: checkRoomState_def Let_def split: option.splits if_splits
      dest!: choice_flag_handleItemInteraction)

lemma choice_flag_handleCombat:
  "isChoiceRoom (rooms (dungeonLogic (handleCombat g)) a)
    \<Longrightarrow> isChoiceRoom (rooms (dungeonLogic g) a)"
  by (auto simp: handleCombat_def Let_def split_beta split: option.splits if_splits)

lemma choice_flag_handleChoice:
  "isChoiceRoom (rooms (dungeonLogic (handleChoice g c)) a)
    \<Longrightarrow> isChoiceRoom (rooms (dungeonLogic g) a)"
  by (auto simp: handleChoice_def Let_def split: option.splits if_splits)

lemma choice_flag_runCallback:
  assumes "runCallback cb g = Inr g'" and "isChoiceRoom (rooms (dungeonLogic g') a)"
  shows "isChoiceRoom (rooms (dungeonLogic g) a)"
proof (cases cb)
  case cb_moveForward
  then show ?thesis using assms by (auto simp: Let_def split_beta)
next
  case cb_moveBack
  then show ?thesis using assms
    by (auto simp: Let_def split: sum.splits dest!: rooms_moveBack)
next
  case (cb_collectSword r)
  then show ?thesis using assms by (auto simp: Let_def split: if_splits)
next
  case cb_handleCombat
  then show ?thesis using assms by (auto dest: choice_flag_handleCombat)
next
  case (cb_handleChoice c)
  then show ?thesis using assms by (auto dest: choice_flag_handleChoice)
next
  case cb_exploring
  then show ?thesis using assms by auto
qed

lemma choice_flag_runTransitionCallback:
  assumes "runTransitionCallback g = Inr g'" and "isChoiceRoom (rooms (dungeonLogic g') a)"
  shows "isChoiceRoom (rooms (dungeonLogic g) a)"
  using assms
  by (auto simp: runTransitionCallback_def split: option.splits sum.splits
      dest: choice_flag_runCallback)

lemma choice_flag_update:
  assumes "GamePlayScreen_update b g = Inr g'" and "isChoiceRoom (rooms (dungeonLogic g') a)"
  shows "isChoiceRoom (rooms (dungeonLogic g) a)"
  using assms
  by (auto simp: GamePlayScreen_update_def split: if_splits sum.splits
      dest!: choice_flag_checkRoomState dest: choice_flag_runTransitionCallback)

lemma choice_flag_handleScreenTransition:
  "isChoiceRoom (rooms (dungeonLogic (handleScreenTransition b g)) a)
    \<Longrightarrow> isChoiceRoom (rooms (dungeonLogic g) a)"
  by (auto simp: handleScreenTransition_def Let_def onEnter_def split: if_splits
      dest!: choice_flag_checkRoomState)

lemma choice_flag_Game_processEvent:
  "isChoiceRoom (rooms (dungeonLogic (Game_processEvent ev g)) a)
    \<Longrightarrow> isChoiceRoom (rooms (dungeonLogic g) a)"
  by (auto simp: Game_processEvent_def split: if_splits)

lemma choice_flag_Game_update:
  assumes "Game_update b1 b2 g = Inr g'" and "isChoiceRoom (rooms (dungeonLogic g') a)"
  shows "isChoiceRoom (rooms (dungeonLogic g) a)"
  using assms
  by (auto simp: Game_update_def split: if_splits sum.splits
      dest!: choice_flag_handleScreenTransition dest: choice_flag_update)

lemma choice_flag_steps:
  "steps g g' \<Longrightarrow> isChoiceRoom (rooms (dungeonLogic g') a)
    \<Longrightarrow> isChoiceRoom (rooms (dungeonLogic g) a)"
  by (induction rule: steps.induct)
    (auto dest: choice_flag_Game_processEvent choice_flag_Game_update)

lemma choice_update_clears_flag:
  assumes cur: "getCurrentRoom (dungeonLogic g) = Some a"
    and flag: "isChoiceRoom (rooms (dungeonLogic g) a)"
    and ts: "transitionState g = Gp_FADING_OUT"
    and cb: "onTransitionComplete g = Some (cb_handleChoice choice)"
    and up: "GamePlayScreen_update True g = Inr g1"
  shows "\<not> isChoiceRoom (rooms (dungeonLogic g1) a)"
proof -
  let ?h = "(handleChoice g choice)\<lparr>onTransitionComplete := None\<rparr>"
  have r: "runTransitionCallback g = Inr ?h"
    using cb by (simp add: runTransitionCallback_def)
  have h: "\<not> isChoiceRoom (rooms (dungeonLogic ?h) a)"
    using handleChoice_result(2) [OF cur flag] by simp
  have "g1 = triggerGameOver ?h ''You have run out of moves.''
      \<or> g1 = (checkRoomState ?h)\<lparr>transitionState := Gp_FADING_IN\<rparr>"
    using up ts r by (auto simp: GamePlayScreen_update_def split: if_splits)
  then show ?thesis
  proof
    assume "g1 = triggerGameOver ?h ''You have run out of moves.''"
    then show ?thesis using h by simp
  next
    assume "g1 = (checkRoomState ?h)\<lparr>transitionState := Gp_FADING_IN\<rparr>"
    then show ?thesis using h choice_flag_checkRoomState [of ?h a] by auto
  qed
qed

subsection \<open>Running out of moves\<close>

lemma out_of_moves_screen:
  "gameOverScreen (triggerGameOver g ''You have run out of moves.'') =
     Some \<lparr>reason = ''You have run out of moves.'',
           finalBgId = (case currentRoom (dungeonLogic g) of
                          Some a \<Rightarrow> backgroundID (rooms (dungeonLogic g) a)
                        | None \<Rightarrow> ''dungeon.png''),
           win = False\<rparr>"
  by (simp add: triggerGameOver_screen GameOverScreen_new_def win_reasons del: str_contains.simps)

text \<open>
  C5, as stated, fails: the check of the moves is made in the EXPLORING state only. In
  the MESSAGE state with 0 moves, in a room that has a successor, the keys F and B
  change nothing: no loss is produced.
\<close>

theorem navigation_keys_ignored_in_message_state:
  "moves (playerLogic (playing (hero\<lparr>moves := 0\<rparr>) two_rooms MESSAGE)) = 0
   \<and> canMoveForward (dungeonLogic (playing (hero\<lparr>moves := 0\<rparr>) two_rooms MESSAGE))
   \<and> gameOverScreen (playing (hero\<lparr>moves := 0\<rparr>) two_rooms MESSAGE) = None
   \<and> GamePlayScreen_handleEvent (KeyPressed Key_F)
        (playing (hero\<lparr>moves := 0\<rparr>) two_rooms MESSAGE) =
      playing (hero\<lparr>moves := 0\<rparr>) two_rooms MESSAGE
   \<and> GamePlayScreen_handleEvent (KeyPressed Key_B)
        (playing (hero\<lparr>moves := 0\<rparr>) two_rooms MESSAGE) =
      playing (hero\<lparr>moves := 0\<rparr>) two_rooms MESSAGE"
  by (simp add: GamePlayScreen_handleEvent_def canMoveForward_def)

text \<open>
  C5, amended: in the EXPLORING state with no room transition running, the key F or B
  pressed while the moves are at most 0 ends the session as a loss with the reason "You
  have run out of moves." and navigates nowhere (player, dungeon and pending closure are
  unchanged). In the other interaction states and during a room transition no such
  check is made: B is ignored, and F is ignored or, in COMBAT, starts the fight. When
  the fade-out of a room transition completes and the moves are below 0 after the
  closure has run, the session ends with the same loss and the room is not evaluated.
\<close>

theorem exhaustion_check:
  "(currentState g = EXPLORING \<and> transitionState g = Gp_NONE \<and> moves (playerLogic g) \<le> 0
      \<and> (code = Key_F \<or> code = Key_B) \<longrightarrow>
      GamePlayScreen_handleEvent (KeyPressed code) g = triggerGameOver g ''You have run out of moves.''
      \<and> gameOverScreen (GamePlayScreen_handleEvent (KeyPressed code) g) =
          Some \<lparr>reason = ''You have run out of moves.'',
                finalBgId = (case currentRoom (dungeonLogic g) of
                               Some a \<Rightarrow> backgroundID (rooms (dungeonLogic g) a)
                             | None \<Rightarrow> ''dungeon.png''),
                win = False\<rparr>
      \<and> playerLogic (GamePlayScreen_handleEvent (KeyPressed code) g) = playerLogic g
      \<and> dungeonLogic (GamePlayScreen_handleEvent (KeyPressed code) g) = dungeonLogic g
      \<and> transitionState (GamePlayScreen_handleEvent (KeyPressed code) g) = Gp_NONE
      \<and> onTransitionComplete (GamePlayScreen_handleEvent (KeyPressed code) g) = onTransitionComplete g
      \<and> (currentTransition g = TS_NONE \<and> currentStateID g \<noteq> GAME_OVER \<longrightarrow>
           nextStateID (GamePlayScreen_handleEvent (KeyPressed code) g) = GAME_OVER
           \<and> currentTransition (GamePlayScreen_handleEvent (KeyPressed code) g) = TS_FADING_OUT))
   \<and> (currentState g \<noteq> EXPLORING \<or> transitionState g \<noteq> Gp_NONE \<longrightarrow>
        GamePlayScreen_handleEvent (KeyPressed Key_B) g = g
        \<and> GamePlayScreen_handleEvent (KeyPressed Key_F) g =
            (if transitionState g = Gp_NONE \<and> currentState g = COMBAT
             then startTransition g cb_handleCombat else g))
   \<and> (transitionState g = Gp_FADING_OUT \<and> runTransitionCallback g = Inr g1
        \<and> moves (playerLogic g1) < 0 \<longrightarrow>
        GamePlayScreen_update True g = Inr (triggerGameOver g1 ''You have run out of moves.'')
        \<and> dungeonLogic (triggerGameOver g1 ''You have run out of moves.'') = dungeonLogic g1
        \<and> currentState (triggerGameOver g1 ''You have run out of moves.'') = currentState g1
        \<and> gameOverScreen (triggerGameOver g1 ''You have run out of moves.'') =
            Some \<lparr>reason = ''You have run out of moves.'',
                  finalBgId = (case currentRoom (dungeonLogic g1) of
                                 Some a \<Rightarrow> backgroundID (rooms (dungeonLogic g1) a)
                               | None \<Rightarrow> ''dungeon.png''),
                  win = False\<rparr>)"
proof -
  have a: "GamePlayScreen_handleEvent (KeyPressed code) g =
             triggerGameOver g ''You have run out of moves.''"
    if "currentState g = EXPLORING" "transitionState g = Gp_NONE" "moves (playerLogic g) \<le> 0"
      "code = Key_F \<or> code = Key_B"
    using that by (auto simp: GamePlayScreen_handleEvent_def)
  have b: "GamePlayScreen_handleEvent (KeyPressed Key_B) g = g
        \<and> GamePlayScreen_handleEvent (KeyPressed Key_F) g =
            (if transitionState g = Gp_NONE \<and> currentState g = COMBAT
             then startTransition g cb_handleCombat else g)"
    if "currentState g \<noteq> EXPLORING \<or> transitionState g \<noteq> Gp_NONE"
    using that by (auto simp: GamePlayScreen_handleEvent_def split: InteractionState.splits)
  have c: "GamePlayScreen_update True g = Inr (triggerGameOver g1 ''You have run out of moves.'')"
    if "transitionState g = Gp_FADING_OUT" "runTransitionCallback g = Inr g1"
      "moves (playerLogic g1) < 0"
    using that by (simp add: GamePlayScreen_update_def)
  show ?thesis
    using a b c
    by (auto simp: out_of_moves_screen triggerGameOver_change)
qed

theorem exhaustion_check_witness:
  "gameOverScreen (GamePlayScreen_handleEvent (KeyPressed Key_F)
      (playing (hero\<lparr>moves := 0\<rparr>) two_rooms EXPLORING)) =
     Some \<lparr>reason = ''You have run out of moves.'', finalBgId = ''dungeon.png'', win = False\<rparr>
   \<and> nextStateID (GamePlayScreen_handleEvent (KeyPressed Key_F)
        (playing (hero\<lparr>moves := 0\<rparr>) two_rooms EXPLORING)) = GAME_OVER
   \<and> dungeonLogic (GamePlayScreen_handleEvent (KeyPressed Key_F)
        (playing (hero\<lparr>moves := 0\<rparr>) two_rooms EXPLORING)) = two_rooms
   \<and> GamePlayScreen_handleEvent (KeyPressed Key_B)
        (playing (hero\<lparr>moves := 0\<rparr>) (one_room monsterDen) COMBAT) =
      playing (hero\<lparr>moves := 0\<rparr>) (one_room monsterDen) COMBAT
   \<and> (case runTransitionCallback pending_move of
         Inl e \<Rightarrow> False
       | Inr g1 \<Rightarrow>
           moves (playerLogic g1) = - 1
           \<and> GamePlayScreen_update True pending_move =
               Inr (triggerGameOver g1 ''You have run out of moves.''))"
proof -
  let ?g = "playing (hero\<lparr>moves := 0\<rparr>) two_rooms EXPLORING"
  let ?c = "playing (hero\<lparr>moves := 0\<rparr>) (one_room monsterDen) COMBAT"
  obtain g1 where r: "runTransitionCallback pending_move = Inr g1"
    using runTransitionCallback_no_throw by blast
  have m: "moves (playerLogic g1) = - 1"
    using r
    by (auto simp: runTransitionCallback_def pending_move_def Let_def moveForward_def
        canMoveForward_def useMove_def hero_def Player_def split_beta)
  have t: "transitionState pending_move = Gp_FADING_OUT" by (simp add: pending_move_def)
  have h: "currentState ?g = EXPLORING \<and> transitionState ?g = Gp_NONE
      \<and> moves (playerLogic ?g) \<le> 0 \<and> (Key_F = Key_F \<or> Key_F = Key_B)"
    and n: "currentTransition ?g = TS_NONE \<and> currentStateID ?g \<noteq> GAME_OVER"
    by simp_all
  have "gameOverScreen (GamePlayScreen_handleEvent (KeyPressed Key_F) ?g) =
          Some \<lparr>reason = ''You have run out of moves.'',
                finalBgId = (case currentRoom (dungeonLogic ?g) of
                               Some a \<Rightarrow> backgroundID (rooms (dungeonLogic ?g) a)
                             | None \<Rightarrow> ''dungeon.png''),
                win = False\<rparr>
        \<and> nextStateID (GamePlayScreen_handleEvent (KeyPressed Key_F) ?g) = GAME_OVER
        \<and> dungeonLogic (GamePlayScreen_handleEvent (KeyPressed Key_F) ?g) = dungeonLogic ?g"
    using exhaustion_check [of ?g Key_F] h n by blast
  then have "gameOverScreen (GamePlayScreen_handleEvent (KeyPressed Key_F) ?g) =
          Some \<lparr>reason = ''You have run out of moves.'', finalBgId = ''dungeon.png'', win = False\<rparr>
        \<and> nextStateID (GamePlayScreen_handleEvent (KeyPressed Key_F) ?g) = GAME_OVER
        \<and> dungeonLogic (GamePlayScreen_handleEvent (KeyPressed Key_F) ?g) = two_rooms"
    by simp
  moreover have "GamePlayScreen_handleEvent (KeyPressed Key_B) ?c = ?c"
    using exhaustion_check [of ?c] by simp
  moreover have "GamePlayScreen_update True pending_move =
      Inr (triggerGameOver g1 ''You have run out of moves.'')"
    using exhaustion_check [of pending_move _ g1] r m t by simp
  ultimately show ?thesis using r m by simp
qed

subsection \<open>The moves are never negative\<close>

lemma next_new_rooms [simp]:
  "next (Room n d b) = None"
  "next entrance = None" "next wizardStudy = None" "next dragonLair = None"
  "next zombieCrypt = None" "next weaponRoom = None" "next choiceRoom = None"
  "next monsterDen = None" "next bossChamber = None" "next finalDoor = None"
  by (simp_all add: Room_def entrance_def wizardStudy_def dragonLair_def zombieCrypt_def
      weaponRoom_def choiceRoom_def monsterDen_def bossChamber_def finalDoor_def)

lemma setupDungeon_Dungeon:
  "\<exists>d. setupDungeon Dungeon = Some d \<and> head d = Some 0 \<and> currentRoom d = Some 0
       \<and> path_tracker d = []
       \<and> rooms d 0 = entrance\<lparr>next := Some 1\<rparr>
       \<and> rooms d 1 = wizardStudy\<lparr>next := Some 2\<rparr>
       \<and> rooms d 2 = dragonLair\<lparr>next := Some 3\<rparr>
       \<and> rooms d 3 = zombieCrypt\<lparr>next := Some 4\<rparr>
       \<and> rooms d 4 = weaponRoom\<lparr>next := Some 5\<rparr>
       \<and> rooms d 5 = choiceRoom\<lparr>next := Some 6\<rparr>
       \<and> rooms d 6 = monsterDen\<lparr>next := Some 7\<rparr>
       \<and> rooms d 7 = bossChamber\<lparr>next := Some 8\<rparr>
       \<and> rooms d 8 = finalDoor"
  by (simp add: setupDungeon_def Dungeon_def addRoom_def last_room.simps)

lemma setupDungeon_returns: "\<exists>d. setupDungeon Dungeon = Some d"
  using setupDungeon_Dungeon by blast

lemma startGameplay_returns: "\<exists>g. startGameplay n g0 = Some g"
  using setupDungeon_returns by (auto simp: startGameplay_def)

lemma startGameplay_fields:
  assumes "startGameplay n g0 = Some g"
  shows "playerLogic g = Player n 100 10" and "onTransitionComplete g = None"
    and "transitionState g = Gp_NONE" and "currentState g = EXPLORING"
  using assms by (auto simp: startGameplay_def split: Option.bind_splits)

lemma startGameplay_moves_inv: "startGameplay n g0 = Some g \<Longrightarrow> moves_inv g"
  by (simp add: startGameplay_fields moves_inv_def navigation_pending_def Player_def)

lemma handleEvent_pending:
  "navigation_pending (GamePlayScreen_handleEvent ev g)
    \<Longrightarrow> navigation_pending g \<or> 1 \<le> moves (playerLogic g)"
  by (auto simp: GamePlayScreen_handleEvent_def navigation_pending_def startTransition_def
      split: event.splits InteractionState.splits option.splits if_splits)

lemma handleEvent_moves_inv: "moves_inv g \<Longrightarrow> moves_inv (GamePlayScreen_handleEvent ev g)"
  using handleEvent_pending [of ev g] by (auto simp: moves_inv_def)

lemma moves_moveForward:
  "moves (fst (moveForward p d)) = (if canMoveForward d then moves p - 1 else moves p)"
  by (simp add: moveForward_def useMove_def)

lemma moves_moveBack:
  "moveBack p d = Inr (p', d') \<Longrightarrow> moves p' = (if canMoveBack d then moves p - 1 else moves p)"
  by (auto simp: moveBack_def useMove_def split: if_splits sum.splits)

lemma runCallback_moves:
  assumes "runCallback cb g = Inr g'"
  shows "moves (playerLogic g') = moves (playerLogic g)
         \<or> (cb = cb_moveForward \<or> cb = cb_moveBack) \<and> moves (playerLogic g') = moves (playerLogic g) - 1"
proof (cases cb)
  case cb_moveForward
  then show ?thesis using assms moves_moveForward [of "playerLogic g" "dungeonLogic g"]
    by (auto simp: Let_def split_beta)
next
  case cb_moveBack
  then show ?thesis using assms
    by (auto simp: Let_def split: sum.splits dest!: moves_moveBack split: if_splits)
next
  case (cb_collectSword a)
  then show ?thesis using assms by (auto simp: Let_def collectItem_def)
next
  case cb_handleCombat
  then show ?thesis using assms by auto
next
  case (cb_handleChoice c)
  then show ?thesis using assms by auto
next
  case cb_exploring
  then show ?thesis using assms by auto
qed

lemma runTransitionCallback_moves:
  assumes "moves_inv g" and "runTransitionCallback g = Inr g'"
  shows "0 \<le> moves (playerLogic g')" and "onTransitionComplete g' = None"
proof -
  show "onTransitionComplete g' = None"
    using assms(2) by (auto simp: runTransitionCallback_def split: option.splits sum.splits)
  show "0 \<le> moves (playerLogic g')"
  proof (cases "onTransitionComplete g")
    case None
    then show ?thesis using assms by (simp add: runTransitionCallback_def moves_inv_def)
  next
    case (Some cb)
    then obtain g1 where r: "runCallback cb g = Inr g1" and g': "g' = g1\<lparr>onTransitionComplete := None\<rparr>"
      using assms(2) by (auto simp: runTransitionCallback_def split: sum.splits)
    from runCallback_moves [OF r] assms(1) Some show ?thesis
      by (auto simp: g' moves_inv_def navigation_pending_def)
  qed
qed

lemma update_moves_inv:
  assumes "moves_inv g" and "GamePlayScreen_update b g = Inr g'"
  shows "moves_inv g'"
proof (cases "transitionState g = Gp_FADING_OUT \<and> b")
  case True
  then obtain g1 where r: "runTransitionCallback g = Inr g1"
    and g': "g' = (if moves (playerLogic g1) < 0 then triggerGameOver g1 ''You have run out of moves.''
                   else (checkRoomState g1)\<lparr>transitionState := Gp_FADING_IN\<rparr>)"
    using assms(2) by (auto simp: GamePlayScreen_update_def split: sum.splits if_splits)
  from runTransitionCallback_moves [OF assms(1) r] show ?thesis
    by (simp add: g' moves_inv_def navigation_pending_def)
next
  case False
  then have "g' = g \<or> g' = g\<lparr>transitionState := Gp_NONE\<rparr>"
    using assms(2) by (auto simp: GamePlayScreen_update_def split: if_splits)
  then show ?thesis using assms(1) by (auto simp: moves_inv_def navigation_pending_def)
qed

lemma handleScreenTransition_moves_inv:
  "moves_inv g \<Longrightarrow> moves_inv (handleScreenTransition b g)"
  by (simp add: moves_inv_def navigation_pending_def)

lemma Game_processEvent_moves_inv: "moves_inv g \<Longrightarrow> moves_inv (Game_processEvent ev g)"
  by (simp add: Game_processEvent_def handleEvent_moves_inv)
    (simp add: moves_inv_def navigation_pending_def)

lemma Game_update_moves_inv:
  assumes "moves_inv g" and "Game_update b1 b2 g = Inr g'"
  shows "moves_inv g'"
  using assms
  by (auto simp: Game_update_def handleScreenTransition_moves_inv update_moves_inv
      split: sum.splits if_splits)

lemma reachable_moves_inv: "reachable g \<Longrightarrow> moves_inv g"
  by (induction rule: reachable.induct)
    (auto intro: startGameplay_moves_inv Game_processEvent_moves_inv Game_update_moves_inv)

subsection \<open>The dungeon that is built\<close>

lemma built_simps:
  "built 0 = entrance\<lparr>next := Some 1\<rparr>" "built 1 = wizardStudy\<lparr>next := Some 2\<rparr>"
  "built 2 = dragonLair\<lparr>next := Some 3\<rparr>" "built 3 = zombieCrypt\<lparr>next := Some 4\<rparr>"
  "built 4 = weaponRoom\<lparr>next := Some 5\<rparr>" "built 5 = choiceRoom\<lparr>next := Some 6\<rparr>"
  "built 6 = monsterDen\<lparr>next := Some 7\<rparr>" "built 7 = bossChamber\<lparr>next := Some 8\<rparr>"
  "built 8 = finalDoor" "built (Suc 0) = wizardStudy\<lparr>next := Some 2\<rparr>"
  by (simp_all add: built_def)

lemma built_cases:
  "a = 0 \<or> a = 1 \<or> a = 2 \<or> a = 3 \<or> a = 4 \<or> a = 5 \<or> a = 6 \<or> a = 7 \<or> a = 8
   \<or> 8 < a \<and> built a = Room [] [] []"
  by (auto simp: built_def)

lemma room_fields:
  "entity entrance = None" "isChoiceRoom entrance = False" "isFinalDoor entrance = False"
  "entity wizardStudy = Some (Enemy MinionEnemy ''Wizard'' 10)"
  "isChoiceRoom wizardStudy = False" "isFinalDoor wizardStudy = False"
  "entity dragonLair = Some (Enemy MinionEnemy ''Dragon'' 15)"
  "isChoiceRoom dragonLair = False" "isFinalDoor dragonLair = False"
  "entity zombieCrypt = Some (Enemy MinionEnemy ''Zombie'' 5)"
  "isChoiceRoom zombieCrypt = False" "isFinalDoor zombieCrypt = False"
  "entity weaponRoom = Some (Item Weapon ''Sword'')"
  "isChoiceRoom weaponRoom = False" "isFinalDoor weaponRoom = False"
  "name weaponRoom = ''Chamber of the Cursed Blades''"
  "entity choiceRoom = None" "isChoiceRoom choiceRoom = True" "isFinalDoor choiceRoom = False"
  "isChoiceRoom monsterDen = False" "isFinalDoor monsterDen = False"
  "isChoiceRoom bossChamber = False" "isFinalDoor bossChamber = False"
  "entity finalDoor = None" "isChoiceRoom finalDoor = False" "isFinalDoor finalDoor = True"
  "entity (Room n d b) = None" "isChoiceRoom (Room n d b) = False"
  "isFinalDoor (Room n d b) = False"
  by (simp_all add: Room_def entrance_def wizardStudy_def dragonLair_def zombieCrypt_def
      weaponRoom_def choiceRoom_def monsterDen_def bossChamber_def finalDoor_def)

lemma built_choice: "isChoiceRoom (built a) \<longleftrightarrow> a = 5"
  using built_cases [of a] by (auto simp: built_simps room_fields)

lemma built_final_no_entity: "isFinalDoor (built a) \<Longrightarrow> entity (built a) = None"
  using built_cases [of a] by (auto simp: built_simps room_fields)

lemma built_entity:
  assumes "entity (built a) = Some e"
  shows "is_Enemy e \<longrightarrow> 0 \<le> getDamage e"
    and "is_Item e \<longrightarrow> \<not> is_Potion e \<and> getName e \<noteq> ''Golden Key''"
    and "is_Weapon e \<longrightarrow> a = 4"
    and "a = 1 \<longrightarrow> e = Enemy MinionEnemy ''Wizard'' 10"
  using built_cases [of a] assms by (auto simp: built_simps room_fields)

lemma built_next: "next (built a) = (if a < 8 then Some (Suc a) else None)"
  using built_cases [of a] by (auto simp: built_simps Room_def)

lemma setupDungeon_built:
  assumes "setupDungeon Dungeon = Some d"
  shows "rooms d = built" and "head d = Some 0" and "currentRoom d = Some 0"
    and "path_tracker d = []"
  using assms
  by (auto simp: setupDungeon_def Dungeon_def addRoom_def last_room.simps built_def)

subsection \<open>The engine functions keep the invariant\<close>

lemma descends_updates [simp]:
  "descends r b \<Longrightarrow> descends (r\<lparr>description := x\<rparr>) b"
  "descends r b \<Longrightarrow> descends (r\<lparr>description := x, entity := None\<rparr>) b"
  "descends r b \<Longrightarrow> descends (r\<lparr>isChoiceRoom := False\<rparr>) b"
  by (simp_all add: descends_def)

lemma world_inv_same:
  "playerLogic g' = playerLogic g \<Longrightarrow> dungeonLogic g' = dungeonLogic g
    \<Longrightarrow> world_inv g' = world_inv g"
  by (simp add: world_inv_def)

lemma nav_inv_same: "dungeonLogic g' = dungeonLogic g \<Longrightarrow> nav_inv g' = nav_inv g"
  by (simp add: nav_inv_def)

lemma enemy_here_same: "dungeonLogic g' = dungeonLogic g \<Longrightarrow> enemy_here g' = enemy_here g"
  by (auto simp: enemy_here_def split: option.splits)

lemma world_entity:
  assumes "world_inv g" and "entity (rooms (dungeonLogic g) a) = Some e"
  shows "entity (built a) = Some e"
  using assms by (auto simp: world_inv_def descends_def dest!: spec [of _ a])

lemma world_choice:
  assumes "world_inv g" and "isChoiceRoom (rooms (dungeonLogic g) a)"
  shows "a = 5"
  using assms built_choice [of a] by (auto simp: world_inv_def descends_def dest!: spec [of _ a])

lemma world_final:
  assumes "world_inv g" and "isFinalDoor (rooms (dungeonLogic g) a)"
  shows "entity (rooms (dungeonLogic g) a) = None"
  using assms built_final_no_entity [of a]
  by (auto simp: world_inv_def descends_def dest!: spec [of _ a])

lemma hasItem_collect: "hasItem (collectItem p x) y \<longleftrightarrow> hasItem p y \<or> x = y"
  by (auto simp: hasItem_def collectItem_def Inventory_add_def Inventory_has_iff)

lemma health_collect [simp]: "health (collectItem p x) = health p"
  by (simp add: collectItem_def)

lemma handleItemInteraction_world:
  assumes "world_inv g"
  shows "world_inv (handleItemInteraction g)"
proof (cases "currentRoom (dungeonLogic g)")
  case None
  then show ?thesis using assms by (simp add: handleItemInteraction_def getCurrentRoom_def)
next
  case (Some a)
  show ?thesis
  proof (cases "entity (rooms (dungeonLogic g) a)")
    case None
    then show ?thesis using assms Some by (simp add: handleItemInteraction_def getCurrentRoom_def)
  next
    case (Some item)
    show ?thesis
    proof (cases "is_Item item")
      case False
      then show ?thesis using assms Some \<open>currentRoom (dungeonLogic g) = Some a\<close>
        by (simp add: handleItemInteraction_def getCurrentRoom_def)
    next
      case True
      have b: "entity (built a) = Some item" using world_entity [OF assms Some] .
      have np: "\<not> is_Potion item" and nk: "getName item \<noteq> ''Golden Key''"
        using built_entity(2) [OF b] True by auto
      have a1: "a \<noteq> 1" using built_entity(4) [OF b] True by auto
      have a5: "a = 5 \<Longrightarrow> False" using b by (simp add: built_simps room_fields)
      show ?thesis
        using assms Some \<open>currentRoom (dungeonLogic g) = Some a\<close> True np nk a1 a5
        by (auto simp: handleItemInteraction_def getCurrentRoom_def Item_interact_def Let_def
            world_inv_def hasItem_collect)
    qed
  qed
qed


lemma effectiveDamage_nonneg:
  assumes "world_inv g" and "entity (rooms (dungeonLogic g) a) = Some e" and "is_Enemy e"
  shows "0 \<le> fst (effectiveDamage p e)"
  using built_entity(1) [OF world_entity [OF assms(1,2)]] assms(3)
  by (simp add: effectiveDamage_def)

lemma effectiveDamage_wizard:
  assumes "world_inv g" and "entity (rooms (dungeonLogic g) 1) = Some e"
  shows "fst (effectiveDamage p e) = 10"
  using built_entity(4) [OF world_entity [OF assms(1,2)]]
  by (simp add: effectiveDamage_def)

lemma handleCombat_effect:
  assumes "currentRoom (dungeonLogic g) = Some a"
    and "entity (rooms (dungeonLogic g) a) = Some e" and "is_Enemy e"
  shows "inventory (playerLogic (handleCombat g)) = inventory (playerLogic g)"
    and "health (playerLogic (handleCombat g)) =
           max 0 (health (playerLogic g) - fst (effectiveDamage (playerLogic g) e))"
    and "x \<noteq> a \<Longrightarrow> rooms (dungeonLogic (handleCombat g)) x = rooms (dungeonLogic g) x"
    and "isChoiceRoom (rooms (dungeonLogic (handleCombat g)) x) =
           isChoiceRoom (rooms (dungeonLogic g) x)"
    and "isFinalDoor (rooms (dungeonLogic (handleCombat g)) x) =
           isFinalDoor (rooms (dungeonLogic g) x)"
    and "next (rooms (dungeonLogic (handleCombat g)) x) = next (rooms (dungeonLogic g) x)"
    and "entity (rooms (dungeonLogic (handleCombat g)) a) =
           (if 0 < health (playerLogic (handleCombat g)) then None else Some e)"
  using assms
  by (simp_all add: handleCombat_def getCurrentRoom_def Let_def split_beta takeDamage_def
      setBossDefeated_def max_def)


lemma world_invI:
  assumes "\<And>x. descends (rooms (dungeonLogic g) x) (built x)"
    and "0 \<le> health (playerLogic g)" and "health (playerLogic g) \<le> 100"
    and "hasItem (playerLogic g) ''Golden Key'' \<Longrightarrow> \<not> isChoiceRoom (rooms (dungeonLogic g) 5)"
    and "isChoiceRoom (rooms (dungeonLogic g) 5) \<Longrightarrow> entity (rooms (dungeonLogic g) 1) = None
          \<Longrightarrow> health (playerLogic g) \<le> 90"
  shows "world_inv g"
  using assms by (simp add: world_inv_def)

lemma world_invD:
  assumes "world_inv g"
  shows "descends (rooms (dungeonLogic g) x) (built x)"
    and "0 \<le> health (playerLogic g)" and "health (playerLogic g) \<le> 100"
    and "hasItem (playerLogic g) ''Golden Key'' \<Longrightarrow> \<not> isChoiceRoom (rooms (dungeonLogic g) 5)"
    and "isChoiceRoom (rooms (dungeonLogic g) 5) \<Longrightarrow> entity (rooms (dungeonLogic g) 1) = None
          \<Longrightarrow> health (playerLogic g) \<le> 90"
  using assms by (simp_all add: world_inv_def)

lemma handleCombat_world:
  assumes "world_inv g"
  shows "world_inv (handleCombat g)"
proof (cases "currentRoom (dungeonLogic g)")
  case None
  then show ?thesis using assms by (simp add: handleCombat_def getCurrentRoom_def)
next
  case (Some a)
  note cur = this
  show ?thesis
  proof (cases "entity (rooms (dungeonLogic g) a)")
    case None
    then show ?thesis using assms cur by (simp add: handleCombat_def getCurrentRoom_def)
  next
    case (Some e)
    note ent = this
    show ?thesis
    proof (cases "is_Enemy e")
      case False
      then show ?thesis using assms ent cur by (simp add: handleCombat_def getCurrentRoom_def)
    next
      case True
      note ef = handleCombat_effect [OF cur ent True]
      note w = world_invD [OF assms]
      let ?d = "fst (effectiveDamage (playerLogic g) e)"
      have d0: "0 \<le> ?d" using effectiveDamage_nonneg [OF assms ent True] .
      have d1: "a = 1 \<Longrightarrow> ?d = 10" using effectiveDamage_wizard [OF assms] ent by simp
      show ?thesis
      proof (rule world_invI)
        fix x
        show "descends (rooms (dungeonLogic (handleCombat g)) x) (built x)"
        proof (cases "x = a")
          case True
          then show ?thesis using w(1) [of a] ef(4-6) [of a] ef(7) ent
            by (auto simp: descends_def)
        next
          case False
          then show ?thesis using w(1) [of x] ef(3) by simp
        qed
      next
        show "0 \<le> health (playerLogic (handleCombat g))" by (simp add: ef(2))
      next
        show "health (playerLogic (handleCombat g)) \<le> 100" using w(3) d0 by (simp add: ef(2))
      next
        assume "hasItem (playerLogic (handleCombat g)) ''Golden Key''"
        then show "\<not> isChoiceRoom (rooms (dungeonLogic (handleCombat g)) 5)"
          using w(4) by (simp add: hasItem_def ef(1) ef(4))
      next
        assume c: "isChoiceRoom (rooms (dungeonLogic (handleCombat g)) 5)"
          and n: "entity (rooms (dungeonLogic (handleCombat g)) 1) = None"
        show "health (playerLogic (handleCombat g)) \<le> 90"
        proof (cases "a = 1")
          case True
          then show ?thesis using d1 w(3) by (simp add: ef(2))
        next
          case False
          then have "entity (rooms (dungeonLogic g) 1) = None" using n ef(3) [of 1] by simp
          then show ?thesis using w(5) c d0 by (simp add: ef(2) ef(4))
        qed
      qed
    qed
  qed
qed


lemma handleChoice_rooms:
  assumes "getCurrentRoom (dungeonLogic g) = Some a"
    and "isChoiceRoom (rooms (dungeonLogic g) a)"
  shows "x \<noteq> a \<Longrightarrow> rooms (dungeonLogic (handleChoice g c)) x = rooms (dungeonLogic g) x"
    and "next (rooms (dungeonLogic (handleChoice g c)) x) = next (rooms (dungeonLogic g) x)"
    and "isFinalDoor (rooms (dungeonLogic (handleChoice g c)) x) =
           isFinalDoor (rooms (dungeonLogic g) x)"
    and "entity (rooms (dungeonLogic (handleChoice g c)) x) = entity (rooms (dungeonLogic g) x)"
  using assms by (simp_all add: handleChoice_def Let_def)

lemma handleChoice_world:
  assumes "world_inv g"
  shows "world_inv (handleChoice g c)"
proof (cases "\<exists>a. getCurrentRoom (dungeonLogic g) = Some a \<and> isChoiceRoom (rooms (dungeonLogic g) a)")
  case False
  then have "handleChoice g c = g" by (auto simp: handleChoice_def split: option.splits)
  then show ?thesis using assms by simp
next
  case True
  then obtain a where cur: "getCurrentRoom (dungeonLogic g) = Some a"
    and flag: "isChoiceRoom (rooms (dungeonLogic g) a)" by blast
  have a: "a = 5" using world_choice [OF assms flag] .
  note r = handleChoice_result [OF cur flag, where choice = c]
  note rm = handleChoice_rooms [OF cur flag, where c = c]
  note w = world_invD [OF assms]
  have cleared: "\<not> isChoiceRoom (rooms (dungeonLogic (handleChoice g c)) 5)"
    using r(2) a by simp
  show ?thesis
  proof (rule world_invI)
    fix x
    show "descends (rooms (dungeonLogic (handleChoice g c)) x) (built x)"
    proof (cases "x = a")
      case True
      then show ?thesis using w(1) [of a] rm(2-4) [of a] r(2) by (auto simp: descends_def)
    next
      case False
      then show ?thesis using w(1) [of x] rm(1) by simp
    qed
  next
    show "0 \<le> health (playerLogic (handleChoice g c))"
      using w(2,3) health_heal_100 [OF w(2,3)] by (simp add: r(1))
  next
    show "health (playerLogic (handleChoice g c)) \<le> 100"
      using w(2,3) health_heal_100 [OF w(2,3)] by (simp add: r(1))
  next
    show "\<not> isChoiceRoom (rooms (dungeonLogic (handleChoice g c)) 5)" using cleared .
  next
    assume "isChoiceRoom (rooms (dungeonLogic (handleChoice g c)) 5)"
    then show "health (playerLogic (handleChoice g c)) \<le> 90" using cleared by simp
  qed
qed

lemma checkRoomState_cases:
  "\<exists>h. playerLogic h = playerLogic g \<and> dungeonLogic h = dungeonLogic g
       \<and> currentState h = currentState g
       \<and> (playerLogic (checkRoomState g) = playerLogic h
            \<and> dungeonLogic (checkRoomState g) = dungeonLogic h
          \<or> playerLogic (checkRoomState g) = playerLogic (handleItemInteraction h)
            \<and> dungeonLogic (checkRoomState g) = dungeonLogic (handleItemInteraction h))"
proof (cases "m_isNewRoomEntry g")
  case True
  show ?thesis
    by (rule exI [of _ "(addAction g (''Entered The '' @ name (rooms (dungeonLogic g)
          (the (getCurrentRoom (dungeonLogic g))))))\<lparr>m_isNewRoomEntry := False\<rparr>"])
      (simp add: checkRoomState_def Let_def True split: option.splits)
next
  case False
  show ?thesis
    by (rule exI [of _ g]) (simp add: checkRoomState_def Let_def False split: option.splits)
qed

lemma checkRoomState_world:
  assumes "world_inv g"
  shows "world_inv (checkRoomState g)"
proof -
  obtain h where h: "playerLogic h = playerLogic g" "dungeonLogic h = dungeonLogic g"
    and c: "playerLogic (checkRoomState g) = playerLogic h
            \<and> dungeonLogic (checkRoomState g) = dungeonLogic h
          \<or> playerLogic (checkRoomState g) = playerLogic (handleItemInteraction h)
            \<and> dungeonLogic (checkRoomState g) = dungeonLogic (handleItemInteraction h)"
    using checkRoomState_cases [of g] by blast
  have wh: "world_inv h" using world_inv_same [OF h] assms by simp
  from c show ?thesis
  proof
    assume "playerLogic (checkRoomState g) = playerLogic h
      \<and> dungeonLogic (checkRoomState g) = dungeonLogic h"
    then show ?thesis using world_inv_same [of "checkRoomState g" h] wh by simp
  next
    assume "playerLogic (checkRoomState g) = playerLogic (handleItemInteraction h)
      \<and> dungeonLogic (checkRoomState g) = dungeonLogic (handleItemInteraction h)"
    then show ?thesis
      using world_inv_same [of "checkRoomState g" "handleItemInteraction h"]
        handleItemInteraction_world [OF wh] by simp
  qed
qed

lemma entity_handleItemInteraction:
  "entity (rooms (dungeonLogic (handleItemInteraction g)) x) = Some e
    \<Longrightarrow> entity (rooms (dungeonLogic g) x) = Some e"
  by (auto simp: handleItemInteraction_def Let_def split_beta split: option.splits if_splits)

lemma entity_checkRoomState:
  "entity (rooms (dungeonLogic (checkRoomState g)) x) = Some e
    \<Longrightarrow> entity (rooms (dungeonLogic g) x) = Some e"
  by (auto simp: checkRoomState_def Let_def split: option.splits if_splits
      dest!: entity_handleItemInteraction)

lemma entity_handleCombat:
  "entity (rooms (dungeonLogic (handleCombat g)) x) = Some e
    \<Longrightarrow> entity (rooms (dungeonLogic g) x) = Some e"
  by (auto simp: handleCombat_def Let_def split_beta split: option.splits if_splits)

lemma entity_handleChoice:
  "entity (rooms (dungeonLogic (handleChoice g c)) x) = Some e
    \<Longrightarrow> entity (rooms (dungeonLogic g) x) = Some e"
  by (auto simp: handleChoice_def Let_def split: option.splits if_splits)

lemma nav_inv_step:
  assumes "nav_inv g"
    and "currentRoom (dungeonLogic g') = currentRoom (dungeonLogic g)"
    and "path_tracker (dungeonLogic g') = path_tracker (dungeonLogic g)"
    and "\<And>e. entity (rooms (dungeonLogic g') 1) = Some e
          \<Longrightarrow> entity (rooms (dungeonLogic g) 1) = Some e"
  shows "nav_inv g'"
  using assms by (auto simp: nav_inv_def)

lemma enemy_here_step:
  assumes "enemy_here g'"
    and "currentRoom (dungeonLogic g') = currentRoom (dungeonLogic g)"
    and "\<And>x e. entity (rooms (dungeonLogic g') x) = Some e
          \<Longrightarrow> entity (rooms (dungeonLogic g) x) = Some e"
  shows "enemy_here g"
  using assms by (auto simp: enemy_here_def split: option.splits)

lemma checkRoomState_nav: "nav_inv g \<Longrightarrow> nav_inv (checkRoomState g)"
  by (erule nav_inv_step) (simp, simp, erule entity_checkRoomState)

lemma handleCombat_nav: "nav_inv g \<Longrightarrow> nav_inv (handleCombat g)"
  by (erule nav_inv_step) (simp, simp, erule entity_handleCombat)

lemma handleChoice_nav: "nav_inv g \<Longrightarrow> nav_inv (handleChoice g c)"
  by (erule nav_inv_step) (simp, simp, erule entity_handleChoice)

lemma checkRoomState_enemy_here: "enemy_here (checkRoomState g) \<Longrightarrow> enemy_here g"
  by (erule enemy_here_step) (simp, erule entity_checkRoomState)

lemma checkRoomState_combat:
  assumes "world_inv g" and "enemy_here (checkRoomState g)"
  shows "currentState (checkRoomState g) = COMBAT"
proof -
  from checkRoomState_enemy_here [OF assms(2)]
  obtain a e where cur: "currentRoom (dungeonLogic g) = Some a"
    and ent: "entity (rooms (dungeonLogic g) a) = Some e" and en: "is_Enemy e"
    by (auto simp: enemy_here_def split: option.splits)
  have nf: "\<not> isFinalDoor (rooms (dungeonLogic g) a)"
    using world_final [OF assms(1)] ent by auto
  have nw: "\<not> is_Weapon e" using en by (cases e) auto
  show ?thesis
    using cur ent en nf nw by (simp add: checkRoomState_def Let_def getCurrentRoom_def)
qed

lemma session_invD:
  assumes "session_inv g"
  shows "world_inv g" and "nav_inv g"
    and "enemy_here g \<Longrightarrow> currentState g = COMBAT"
    and "onTransitionComplete g = Some cb_moveForward \<Longrightarrow> \<not> enemy_here g"
    and "onTransitionComplete g = Some (cb_collectSword r) \<Longrightarrow> r = 4"
  using assms by (simp_all add: session_inv_def)

lemma world_next:
  assumes "world_inv g"
  shows "next (rooms (dungeonLogic g) a) = (if a < 8 then Some (Suc a) else None)"
  using world_invD(1) [OF assms, of a] built_next [of a] by (simp add: descends_def)

lemma wizard_is_enemy:
  assumes "world_inv g" and "entity (rooms (dungeonLogic g) 1) \<noteq> None"
    and "currentRoom (dungeonLogic g) = Some 1"
  shows "enemy_here g"
proof -
  obtain e where e: "entity (rooms (dungeonLogic g) 1) = Some e" using assms(2) by auto
  have "e = Enemy MinionEnemy ''Wizard'' 10"
    using built_entity(4) [OF world_entity [OF assms(1) e]] by simp
  then show ?thesis using e assms(3) by (simp add: enemy_here_def)
qed

lemma moveForward_inv:
  assumes "session_inv g" and "onTransitionComplete g = Some cb_moveForward"
    and "runCallback cb_moveForward g = Inr g1"
  shows "world_inv g1 \<and> nav_inv g1"
proof -
  note s = session_invD [OF assms(1)]
  let ?d = "dungeonLogic g"
  have g1: "playerLogic g1 = fst (moveForward (playerLogic g) ?d)"
    "dungeonLogic g1 = snd (moveForward (playerLogic g) ?d)"
    using assms(3) by (auto simp: Let_def split_beta)
  have w: "world_inv g1"
    using s(1) by (simp add: world_inv_def g1 moveForward_def useMove_def hasItem_def)
  have n: "nav_inv g1"
  proof (cases "canMoveForward ?d")
    case False
    then show ?thesis using s(2) by (simp add: nav_inv_def g1 moveForward_def)
  next
    case True
    then obtain a b where cur: "currentRoom ?d = Some a" and nx: "next (rooms ?d a) = Some b"
      by (auto simp: canMoveForward_def split: option.splits)
    have d1: "dungeonLogic g1 = ?d\<lparr>path_tracker := Some a # path_tracker ?d, currentRoom := Some b\<rparr>"
      using True cur nx by (simp add: g1 moveForward_def Stack_push_def)
    show ?thesis
      unfolding nav_inv_def
    proof (intro impI)
      assume "entity (rooms (dungeonLogic g1) 1) \<noteq> None"
      then have e: "entity (rooms ?d 1) \<noteq> None" by (simp add: d1)
      then have nr: "near (Some a)" and tr: "\<forall>r \<in> set (path_tracker ?d). near r"
        using s(2) cur by (auto simp: nav_inv_def)
      have "a \<noteq> 1" using wizard_is_enemy [OF s(1) e] s(4) [OF assms(2)] cur by auto
      then have "a = 0" using nr by (simp add: near_def)
      then have "b = 1" using nx world_next [OF s(1), of 0] by simp
      then show "near (currentRoom (dungeonLogic g1))
          \<and> (\<forall>r \<in> set (path_tracker (dungeonLogic g1)). near r)"
        using nr tr by (simp add: d1 near_def)
    qed
  qed
  from w n show ?thesis ..
qed

lemma moveBack_inv:
  assumes "session_inv g" and "runCallback cb_moveBack g = Inr g1"
  shows "world_inv g1 \<and> nav_inv g1"
proof -
  note s = session_invD [OF assms(1)]
  let ?d = "dungeonLogic g"
  obtain p d where mb: "moveBack (playerLogic g) ?d = Inr (p, d)"
    and g1: "playerLogic g1 = p" "dungeonLogic g1 = d"
    using assms(2) by (auto simp: Let_def split: sum.splits)
  have pd: "(p, d) = (playerLogic g, ?d)
      \<or> (\<exists>r rest. path_tracker ?d = r # rest \<and> p = (playerLogic g)\<lparr>moves := moves (playerLogic g) - 1\<rparr>
            \<and> d = ?d\<lparr>currentRoom := r, path_tracker := rest\<rparr>)"
    using mb
    by (cases "path_tracker ?d")
      (auto simp: moveBack_def canMoveBack_def Stack_isEmpty_def Stack_top_def Stack_pop_def
        useMove_def)
  then show ?thesis
  proof
    assume "(p, d) = (playerLogic g, ?d)"
    then show ?thesis using s(1,2) by (simp add: world_inv_def nav_inv_def g1)
  next
    assume "\<exists>r rest. path_tracker ?d = r # rest \<and> p = (playerLogic g)\<lparr>moves := moves (playerLogic g) - 1\<rparr>
            \<and> d = ?d\<lparr>currentRoom := r, path_tracker := rest\<rparr>"
    then show ?thesis using s(1,2) by (auto simp: world_inv_def nav_inv_def g1 hasItem_def)
  qed
qed

lemma collectSword_inv:
  assumes "session_inv g" and "runCallback (cb_collectSword 4) g = Inr g1"
  shows "world_inv g1 \<and> nav_inv g1"
proof -
  note s = session_invD [OF assms(1)]
  note w = world_invD [OF s(1)]
  have p: "playerLogic g1 = collectItem (playerLogic g) ''Sword''"
    and r: "rooms (dungeonLogic g1) =
        (rooms (dungeonLogic g))(4 := (rooms (dungeonLogic g) 4)
          \<lparr>description := ''You grasp the sword. A surge of ultimate power floods your veins.'',
           entity := None\<rparr>)"
    and c: "currentRoom (dungeonLogic g1) = currentRoom (dungeonLogic g)"
      "path_tracker (dungeonLogic g1) = path_tracker (dungeonLogic g)"
    using assms(2) by (auto simp: Let_def)
  have "world_inv g1"
  proof (rule world_invI)
    fix x show "descends (rooms (dungeonLogic g1) x) (built x)"
      using w(1) [of x] by (auto simp: r)
  next
    show "0 \<le> health (playerLogic g1)" "health (playerLogic g1) \<le> 100"
      using w(2,3) by (simp_all add: p)
  next
    assume "hasItem (playerLogic g1) ''Golden Key''"
    then show "\<not> isChoiceRoom (rooms (dungeonLogic g1) 5)"
      using w(4) by (simp add: p r hasItem_collect)
  next
    assume "isChoiceRoom (rooms (dungeonLogic g1) 5)" "entity (rooms (dungeonLogic g1) 1) = None"
    then show "health (playerLogic g1) \<le> 90" using w(5) by (simp add: p r)
  qed
  moreover have "nav_inv g1" using s(2) by (simp add: nav_inv_def r c)
  ultimately show ?thesis ..
qed

lemma runCallback_inv:
  assumes "session_inv g" and "onTransitionComplete g = Some cb" and "runCallback cb g = Inr g1"
  shows "world_inv g1 \<and> nav_inv g1"
proof (cases cb)
  case cb_moveForward
  then show ?thesis using moveForward_inv assms by blast
next
  case cb_moveBack
  then show ?thesis using moveBack_inv assms by blast
next
  case (cb_collectSword r)
  then have "r = 4" using session_invD(5) [OF assms(1)] assms(2) by simp
  then show ?thesis using collectSword_inv assms cb_collectSword by blast
next
  case cb_handleCombat
  then show ?thesis
    using assms(3) session_invD(1,2) [OF assms(1)] handleCombat_world handleCombat_nav by auto
next
  case (cb_handleChoice c)
  then show ?thesis
    using assms(3) session_invD(1,2) [OF assms(1)] handleChoice_world handleChoice_nav by auto
next
  case cb_exploring
  then show ?thesis
    using assms(3) session_invD(1,2) [OF assms(1)] by (auto simp: world_inv_def nav_inv_def)
qed

lemma session_inv_same:
  assumes "playerLogic g' = playerLogic g" and "dungeonLogic g' = dungeonLogic g"
    and "currentState g' = currentState g" and "onTransitionComplete g' = onTransitionComplete g"
  shows "session_inv g' = session_inv g"
  using world_inv_same [OF assms(1,2)] nav_inv_same [OF assms(2)] enemy_here_same [OF assms(2)]
    assms(3,4)
  by (simp add: session_inv_def)

lemma checkRoomState_session:
  assumes "world_inv h" and "nav_inv h"
    and "onTransitionComplete h = Some cb_moveForward \<Longrightarrow> \<not> enemy_here h"
    and "\<And>r. onTransitionComplete h = Some (cb_collectSword r) \<Longrightarrow> r = 4"
  shows "session_inv (checkRoomState h)"
  unfolding session_inv_def
proof (intro conjI impI allI)
  show "world_inv (checkRoomState h)" using assms(1) by (rule checkRoomState_world)
  show "nav_inv (checkRoomState h)" using assms(2) by (rule checkRoomState_nav)
  show "currentState (checkRoomState h) = COMBAT" if "enemy_here (checkRoomState h)"
    using checkRoomState_combat [OF assms(1) that] .
  show "\<not> enemy_here (checkRoomState h)"
    if "onTransitionComplete (checkRoomState h) = Some cb_moveForward"
    using that assms(3) checkRoomState_enemy_here [of h] by auto
  show "r = 4" if "onTransitionComplete (checkRoomState h) = Some (cb_collectSword r)" for r
    using that assms(4) by simp
qed

lemma runTransitionCallback_inv:
  assumes "session_inv g" and "runTransitionCallback g = Inr g1"
  shows "world_inv g1" and "nav_inv g1" and "onTransitionComplete g1 = None"
proof -
  show c: "onTransitionComplete g1 = None"
    using assms(2) by (auto simp: runTransitionCallback_def split: option.splits sum.splits)
  have "world_inv g1 \<and> nav_inv g1"
  proof (cases "onTransitionComplete g")
    case None
    then have "g1 = g" using assms(2) by (simp add: runTransitionCallback_def)
    then show ?thesis using session_invD(1,2) [OF assms(1)] by simp
  next
    case (Some cb)
    then obtain g2 where r: "runCallback cb g = Inr g2"
      and g1: "g1 = g2\<lparr>onTransitionComplete := None\<rparr>"
      using assms(2) by (auto simp: runTransitionCallback_def split: sum.splits)
    have "world_inv g2 \<and> nav_inv g2" using runCallback_inv [OF assms(1) Some r] .
    then show ?thesis by (simp add: g1 world_inv_def nav_inv_def)
  qed
  then show "world_inv g1" and "nav_inv g1" by simp_all
qed

lemma update_session_inv:
  assumes "session_inv g" and "moves_inv g" and "GamePlayScreen_update b g = Inr g'"
  shows "session_inv g'"
proof (cases "transitionState g = Gp_FADING_OUT \<and> b")
  case True
  then obtain g1 where r: "runTransitionCallback g = Inr g1"
    and g': "g' = (if moves (playerLogic g1) < 0 then triggerGameOver g1 ''You have run out of moves.''
                   else (checkRoomState g1)\<lparr>transitionState := Gp_FADING_IN\<rparr>)"
    using assms(3) by (auto simp: GamePlayScreen_update_def split: sum.splits if_splits)
  have m: "0 \<le> moves (playerLogic g1)" using runTransitionCallback_moves(1) [OF assms(2) r] .
  note i = runTransitionCallback_inv [OF assms(1) r]
  have "session_inv (checkRoomState g1)"
    using i by (intro checkRoomState_session) simp_all
  moreover have "session_inv g' = session_inv (checkRoomState g1)"
    using m by (intro session_inv_same) (simp_all add: g')
  ultimately show ?thesis by simp
next
  case False
  then have "g' = g \<or> g' = g\<lparr>transitionState := Gp_NONE\<rparr>"
    using assms(3) by (auto simp: GamePlayScreen_update_def split: if_splits)
  moreover have "session_inv (g\<lparr>transitionState := Gp_NONE\<rparr>) = session_inv g"
    by (intro session_inv_same) simp_all
  ultimately show ?thesis using assms(1) by auto
qed

lemma handleEvent_currentState [simp]:
  "currentState (GamePlayScreen_handleEvent ev g) = currentState g"
  by (simp add: GamePlayScreen_handleEvent_def
      split: event.splits InteractionState.splits option.splits)

lemma handleEvent_playerLogic [simp]:
  "playerLogic (GamePlayScreen_handleEvent ev g) = playerLogic g"
  by (simp add: GamePlayScreen_handleEvent_def
      split: event.splits InteractionState.splits option.splits)

lemma handleEvent_moveForward:
  "onTransitionComplete (GamePlayScreen_handleEvent ev g) = Some cb_moveForward
    \<Longrightarrow> onTransitionComplete g = Some cb_moveForward \<or> currentState g = EXPLORING"
  by (auto simp: GamePlayScreen_handleEvent_def startTransition_def
      split: event.splits InteractionState.splits option.splits if_splits)

lemma handleEvent_collectSword:
  "onTransitionComplete (GamePlayScreen_handleEvent ev g) = Some (cb_collectSword r)
    \<Longrightarrow> onTransitionComplete g = Some (cb_collectSword r)
      \<or> getCurrentRoom (dungeonLogic g) = Some r \<and> inSwordRoomWithSword (dungeonLogic g)"
  by (auto simp: GamePlayScreen_handleEvent_def startTransition_def
      split: event.splits InteractionState.splits option.splits if_splits)

lemma sword_room:
  assumes "world_inv g" and "getCurrentRoom (dungeonLogic g) = Some r"
    and "inSwordRoomWithSword (dungeonLogic g)"
  shows "r = 4"
proof -
  obtain e where "entity (rooms (dungeonLogic g) r) = Some e" and "is_Weapon e"
    using assms(2,3) by (auto simp: inSwordRoomWithSword_def split: option.splits)
  then show ?thesis using built_entity(3) [OF world_entity [OF assms(1)]] by blast
qed

lemma handleEvent_session_inv:
  assumes "session_inv g"
  shows "session_inv (GamePlayScreen_handleEvent ev g)"
proof -
  let ?g = "GamePlayScreen_handleEvent ev g"
  note s = session_invD [OF assms]
  have w: "world_inv ?g = world_inv g" by (intro world_inv_same) simp_all
  have n: "nav_inv ?g = nav_inv g" by (intro nav_inv_same) simp
  have e: "enemy_here ?g = enemy_here g" by (intro enemy_here_same) simp
  show ?thesis
    unfolding session_inv_def
  proof (intro conjI impI allI)
    show "world_inv ?g" using w s(1) by simp
    show "nav_inv ?g" using n s(2) by simp
    show "currentState ?g = COMBAT" if "enemy_here ?g" using that e s(3) by simp
    show "\<not> enemy_here ?g" if "onTransitionComplete ?g = Some cb_moveForward"
      using handleEvent_moveForward [OF that] s(3,4) e by auto
    show "r = 4" if "onTransitionComplete ?g = Some (cb_collectSword r)" for r
      using handleEvent_collectSword [OF that] s(5) sword_room [OF s(1)] by auto
  qed
qed

lemma handleScreenTransition_session_inv:
  assumes "session_inv g"
  shows "session_inv (handleScreenTransition b g)"
proof (cases "currentTransition g = TS_FADING_OUT \<and> b \<and> nextStateID g = GAMEPLAY")
  case True
  let ?h = "addAction (g\<lparr>currentStateID := nextStateID g, actionsLog := [], m_isNewRoomEntry := True\<rparr>)
              ''Your adventure begins...''"
  have hs: "handleScreenTransition b g = (checkRoomState ?h)\<lparr>currentTransition := TS_FADING_IN\<rparr>"
    using True by (simp add: handleScreenTransition_def Let_def onEnter_def)
  have "session_inv ?h = session_inv g" by (intro session_inv_same) simp_all
  then have sh: "session_inv ?h" using assms by simp
  note s = session_invD [OF sh]
  have "session_inv (checkRoomState ?h)"
    using s(1,2,4,5) by (intro checkRoomState_session) auto
  moreover have "session_inv (handleScreenTransition b g) = session_inv (checkRoomState ?h)"
    unfolding hs by (intro session_inv_same) simp_all
  ultimately show ?thesis by simp
next
  case False
  have "session_inv (handleScreenTransition b g) = session_inv g"
    using False by (intro session_inv_same) (auto simp: handleScreenTransition_def Let_def)
  then show ?thesis using assms by simp
qed

lemma Game_processEvent_session_inv:
  assumes "session_inv g"
  shows "session_inv (Game_processEvent ev g)"
proof -
  have "session_inv (changeScreen g MENU) = session_inv g"
    by (intro session_inv_same) simp_all
  then show ?thesis
    using assms handleEvent_session_inv [OF assms, of ev] by (simp add: Game_processEvent_def)
qed

lemma Game_update_session_inv:
  assumes "session_inv g" and "moves_inv g" and "Game_update b1 b2 g = Inr g'"
  shows "session_inv g'"
  using assms
  by (auto simp: Game_update_def handleScreenTransition_session_inv update_session_inv
      split: sum.splits if_splits)

lemma startGameplay_dungeon:
  assumes "startGameplay n g0 = Some g"
  shows "rooms (dungeonLogic g) = built" and "currentRoom (dungeonLogic g) = Some 0"
    and "path_tracker (dungeonLogic g) = []"
proof -
  obtain d where d: "setupDungeon Dungeon = Some d" and g: "dungeonLogic g = d"
    using assms by (auto simp: startGameplay_def split: Option.bind_splits)
  show "rooms (dungeonLogic g) = built" and "currentRoom (dungeonLogic g) = Some 0"
    and "path_tracker (dungeonLogic g) = []"
    using setupDungeon_built [OF d] by (simp_all add: g)
qed

lemma startGameplay_session_inv:
  assumes "startGameplay n g0 = Some g"
  shows "session_inv g"
  using startGameplay_dungeon [OF assms] startGameplay_fields [OF assms]
  by (simp add: session_inv_def world_inv_def nav_inv_def enemy_here_def descends_def Player_def
      hasItem_def near_def built_simps room_fields)

lemma reachable_session_inv: "reachable g \<Longrightarrow> session_inv g"
proof (induction rule: reachable.induct)
  case (start g0 playerName g)
  then show ?case by (simp add: startGameplay_session_inv)
next
  case (processEvent g ev)
  then show ?case by (simp add: Game_processEvent_session_inv)
next
  case (update g gp_fade_done fade_done g')
  then show ?case using Game_update_session_inv reachable_moves_inv by blast
qed

subsection \<open>Runs of a session\<close>

lemma start_state:
  assumes "startGameplay n g0 = Some g" and "currentStateID g0 = NAME_INPUT"
    and "currentTransition g0 = TS_NONE"
  shows "currentStateID g = NAME_INPUT" and "nextStateID g = GAMEPLAY"
    and "currentTransition g = TS_FADING_OUT"
  using assms by (auto simp: startGameplay_def changeScreen_def split: Option.bind_splits)

lemma enter_state:
  assumes "startGameplay n g0 = Some g" and "currentStateID g0 = NAME_INPUT"
    and "currentTransition g0 = TS_NONE"
  shows "\<exists>g'. play enter g = Inr g' \<and> playerLogic g' = Player n 100 10
      \<and> rooms (dungeonLogic g') = built \<and> currentRoom (dungeonLogic g') = Some 0
      \<and> path_tracker (dungeonLogic g') = [] \<and> currentState g' = EXPLORING
      \<and> transitionState g' = Gp_NONE \<and> onTransitionComplete g' = None
      \<and> currentTransition g' = TS_NONE \<and> currentStateID g' = GAMEPLAY"
  using start_state [OF assms] startGameplay_fields [OF assms(1)] startGameplay_dungeon [OF assms(1)]
  by (simp add: enter_def Game_update_def handleScreenTransition_def Let_def onEnter_def
      checkRoomState_def getCurrentRoom_def built_simps room_fields)

lemma weapon_not_enemy: "is_Weapon e \<Longrightarrow> \<not> is_Enemy e"
  by (cases e) auto

lemma forward_step:
  assumes "settled g" and "currentState g = EXPLORING" and "1 \<le> moves (playerLogic g)"
    and "currentRoom (dungeonLogic g) = Some c"
    and "next (rooms (dungeonLogic g) c) = Some c'"
    and "\<not> isFinalDoor (rooms (dungeonLogic g) c')"
    and "\<And>e. entity (rooms (dungeonLogic g) c') = Some e \<Longrightarrow>
           is_Enemy e \<or> is_Weapon e \<and> name (rooms (dungeonLogic g) c') = ''Chamber of the Cursed Blades''"
  shows "\<exists>g'. play press_F g = Inr g' \<and> settled g'
      \<and> playerLogic g' = (playerLogic g)\<lparr>moves := moves (playerLogic g) - 1\<rparr>
      \<and> rooms (dungeonLogic g') = rooms (dungeonLogic g)
      \<and> currentRoom (dungeonLogic g') = Some c'
      \<and> path_tracker (dungeonLogic g') = Some c # path_tracker (dungeonLogic g)
      \<and> currentState g' = room_state (rooms (dungeonLogic g) c')"
proof -
  let ?g1 = "Game_processEvent (KeyPressed Key_F) g"
  have g1: "?g1 = startTransition g cb_moveForward"
    using assms(1-5)
    by (simp add: Game_processEvent_def GamePlayScreen_handleEvent_def settled_def
        canMoveForward_def)
  let ?m = "(g\<lparr>transitionState := Gp_FADING_OUT, onTransitionComplete := None,
                m_isNewRoomEntry := True,
                playerLogic := (playerLogic g)\<lparr>moves := moves (playerLogic g) - 1\<rparr>,
                dungeonLogic := (dungeonLogic g)
                  \<lparr>path_tracker := Some c # path_tracker (dungeonLogic g),
                   currentRoom := Some c'\<rparr>\<rparr>)"
  have r: "runTransitionCallback ?g1 = Inr ?m"
    using assms(1,4,5)
    by (simp add: g1 runTransitionCallback_def startTransition_def settled_def Let_def
        moveForward_def canMoveForward_def useMove_def Stack_push_def)
  let ?g2 = "(checkRoomState ?m)\<lparr>transitionState := Gp_FADING_IN\<rparr>"
  have u1: "Game_update True False ?g1 = Inr ?g2"
    using assms(1,3) r
    by (simp add: Game_update_def GamePlayScreen_update_def g1 startTransition_def settled_def
        handleScreenTransition_def)
  have c: "playerLogic (checkRoomState ?m) = playerLogic ?m"
    "dungeonLogic (checkRoomState ?m) = dungeonLogic ?m"
    "currentState (checkRoomState ?m) = room_state (rooms (dungeonLogic g) c')"
    "currentTransition (checkRoomState ?m) = TS_NONE"
    "currentStateID (checkRoomState ?m) = GAMEPLAY"
    using assms(1,2,6,7)
    by (auto simp: checkRoomState_def Let_def getCurrentRoom_def room_state_def settled_def
        split: option.splits dest: weapon_not_enemy)
  have u2: "Game_update True False ?g2 = Inr (?g2\<lparr>transitionState := Gp_NONE\<rparr>)"
    using c by (simp add: Game_update_def GamePlayScreen_update_def handleScreenTransition_def)
  have "play press_F g = Inr (?g2\<lparr>transitionState := Gp_NONE\<rparr>)"
    by (simp add: press_F_def u1 u2)
  then show ?thesis using c by (simp add: settled_def)
qed


lemma fight_step:
  assumes "settled g" and "currentState g = COMBAT" and "0 \<le> moves (playerLogic g)"
    and "currentRoom (dungeonLogic g) = Some c"
    and "entity (rooms (dungeonLogic g) c) = Some (Enemy MinionEnemy n dmg)"
    and "dmg < health (playerLogic g)"
    and "\<not> isFinalDoor (rooms (dungeonLogic g) c)"
    and "\<not> isChoiceRoom (rooms (dungeonLogic g) c)"
  shows "\<exists>g'. play press_F g = Inr g' \<and> settled g'
      \<and> playerLogic g' = (playerLogic g)\<lparr>health := health (playerLogic g) - dmg\<rparr>
      \<and> currentRoom (dungeonLogic g') = Some c
      \<and> path_tracker (dungeonLogic g') = path_tracker (dungeonLogic g)
      \<and> currentState g' = EXPLORING
      \<and> (\<forall>x. x \<noteq> c \<longrightarrow> rooms (dungeonLogic g') x = rooms (dungeonLogic g) x)
      \<and> entity (rooms (dungeonLogic g') c) = None
      \<and> next (rooms (dungeonLogic g') c) = next (rooms (dungeonLogic g) c)"
proof -
  let ?g1 = "Game_processEvent (KeyPressed Key_F) g"
  have g1: "?g1 = startTransition g cb_handleCombat"
    using assms(1,2)
    by (simp add: Game_processEvent_def GamePlayScreen_handleEvent_def settled_def)
  let ?h = "(handleCombat ?g1)\<lparr>onTransitionComplete := None\<rparr>"
  have r: "runTransitionCallback ?g1 = Inr ?h"
    using assms(1) by (simp add: g1 runTransitionCallback_def startTransition_def settled_def)
  have h: "playerLogic ?h = (playerLogic g)\<lparr>health := health (playerLogic g) - dmg\<rparr>"
    "currentRoom (dungeonLogic ?h) = Some c"
    "path_tracker (dungeonLogic ?h) = path_tracker (dungeonLogic g)"
    "\<forall>x. x \<noteq> c \<longrightarrow> rooms (dungeonLogic ?h) x = rooms (dungeonLogic g) x"
    "entity (rooms (dungeonLogic ?h) c) = None"
    "next (rooms (dungeonLogic ?h) c) = next (rooms (dungeonLogic g) c)"
    "isFinalDoor (rooms (dungeonLogic ?h) c) = isFinalDoor (rooms (dungeonLogic g) c)"
    "isChoiceRoom (rooms (dungeonLogic ?h) c) = isChoiceRoom (rooms (dungeonLogic g) c)"
    "currentTransition ?h = TS_NONE" "currentStateID ?h = GAMEPLAY"
    "transitionState ?h = Gp_FADING_OUT"
    using assms(1,4,5,6)
    by (simp_all add: g1 handleCombat_def getCurrentRoom_def Let_def effectiveDamage_def
        takeDamage_def startTransition_def settled_def)
  let ?g2 = "(checkRoomState ?h)\<lparr>transitionState := Gp_FADING_IN\<rparr>"
  have u1: "Game_update True False ?g1 = Inr ?g2"
    using assms(1,3) r h(1)
    by (simp add: Game_update_def GamePlayScreen_update_def g1 startTransition_def settled_def
        handleScreenTransition_def)
  have c: "playerLogic (checkRoomState ?h) = playerLogic ?h"
    "dungeonLogic (checkRoomState ?h) = dungeonLogic ?h"
    "currentState (checkRoomState ?h) = EXPLORING"
    "currentTransition (checkRoomState ?h) = TS_NONE"
    "currentStateID (checkRoomState ?h) = GAMEPLAY"
    using assms(7,8) h(2,5,7-10)
    by (auto simp: checkRoomState_def Let_def getCurrentRoom_def split: option.splits)
  have u2: "Game_update True False ?g2 = Inr (?g2\<lparr>transitionState := Gp_NONE\<rparr>)"
    using c by (simp add: Game_update_def GamePlayScreen_update_def handleScreenTransition_def)
  have "play press_F g = Inr (?g2\<lparr>transitionState := Gp_NONE\<rparr>)"
    by (simp add: press_F_def u1 u2)
  then show ?thesis using c h by (simp add: settled_def)
qed

lemma built_entity_kind:
  assumes "entity (built a) = Some e"
  shows "is_Enemy e \<or> is_Weapon e \<and> name (built a) = ''Chamber of the Cursed Blades''"
  using built_cases [of a] assms by (auto simp: built_simps room_fields)

lemma built_final: "isFinalDoor (built a) \<longleftrightarrow> a = 8"
  using built_cases [of a] by (auto simp: built_simps room_fields)

lemma play_append:
  "play (xs @ ys) g = (case play xs g of Inl e \<Rightarrow> Inl e | Inr g' \<Rightarrow> play ys g')"
proof (induction xs arbitrary: g)
  case Nil
  then show ?case by simp
next
  case (Cons x xs)
  then show ?case by (cases x) (auto split: sum.splits)
qed

lemma walk_enter:
  assumes "startGameplay n g0 = Some g" and "currentStateID g0 = NAME_INPUT"
    and "currentTransition g0 = TS_NONE"
  shows "\<exists>g'. play enter g = Inr g' \<and> walking g' (Player n 100 10) 0 [] EXPLORING"
  using enter_state [OF assms] by (auto simp: walking_def settled_def)

lemma walk_forward:
  assumes "walking g p c tr EXPLORING" and "1 \<le> moves p" and "c < 7"
  shows "\<exists>g'. play press_F g = Inr g'
      \<and> walking g' (p\<lparr>moves := moves p - 1\<rparr>) (Suc c) (Some c # tr) (room_state (built (Suc c)))"
proof -
  note w = assms(1) [unfolded walking_def]
  have nx: "next (rooms (dungeonLogic g) c) = Some (Suc c)"
    using w assms(3) by (simp add: built_next)
  have r: "rooms (dungeonLogic g) (Suc c) = built (Suc c)" using w by simp
  have nf: "\<not> isFinalDoor (rooms (dungeonLogic g) (Suc c))"
    using assms(3) by (simp add: r built_final)
  have k: "is_Enemy e \<or> is_Weapon e
      \<and> name (rooms (dungeonLogic g) (Suc c)) = ''Chamber of the Cursed Blades''"
    if "entity (rooms (dungeonLogic g) (Suc c)) = Some e" for e
    using that built_entity_kind [of "Suc c" e] by (simp add: r)
  obtain g' where g': "play press_F g = Inr g'" "settled g'"
    "playerLogic g' = (playerLogic g)\<lparr>moves := moves (playerLogic g) - 1\<rparr>"
    "rooms (dungeonLogic g') = rooms (dungeonLogic g)"
    "currentRoom (dungeonLogic g') = Some (Suc c)"
    "path_tracker (dungeonLogic g') = Some c # path_tracker (dungeonLogic g)"
    "currentState g' = room_state (rooms (dungeonLogic g) (Suc c))"
    using forward_step [of g c "Suc c"] w assms(2) nx nf k by blast
  have "walking g' (p\<lparr>moves := moves p - 1\<rparr>) (Suc c) (Some c # tr) (room_state (built (Suc c)))"
    using g' w r by (simp add: walking_def)
  then show ?thesis using g'(1) by blast
qed

lemma walk_fight:
  assumes "walking g p c tr COMBAT" and "0 \<le> moves p"
    and "entity (built c) = Some (Enemy MinionEnemy n dmg)" and "dmg < health p"
  shows "\<exists>g'. play press_F g = Inr g' \<and> walking g' (p\<lparr>health := health p - dmg\<rparr>) c tr EXPLORING"
proof -
  note w = assms(1) [unfolded walking_def]
  have r: "rooms (dungeonLogic g) c = built c" using w by simp
  have nf: "\<not> isFinalDoor (rooms (dungeonLogic g) c)"
    using built_final_no_entity [of c] assms(3) by (auto simp: r)
  have nc: "\<not> isChoiceRoom (rooms (dungeonLogic g) c)"
    using assms(3) by (auto simp: r built_choice built_simps room_fields)
  obtain g' where g': "play press_F g = Inr g'" "settled g'"
    "playerLogic g' = (playerLogic g)\<lparr>health := health (playerLogic g) - dmg\<rparr>"
    "currentRoom (dungeonLogic g') = Some c"
    "path_tracker (dungeonLogic g') = path_tracker (dungeonLogic g)"
    "currentState g' = EXPLORING"
    "\<forall>x. x \<noteq> c \<longrightarrow> rooms (dungeonLogic g') x = rooms (dungeonLogic g) x"
    "next (rooms (dungeonLogic g') c) = next (rooms (dungeonLogic g) c)"
    using fight_step [of g c n dmg] w assms(2,3,4) nf nc r by auto
  have "walking g' (p\<lparr>health := health p - dmg\<rparr>) c tr EXPLORING"
    using g' w by (simp add: walking_def)
  then show ?thesis using g'(1) by blast
qed

lemma reachable_play: "reachable g \<Longrightarrow> play is g = Inr g' \<Longrightarrow> reachable g'"
proof (induction "is" arbitrary: g)
  case Nil
  then show ?case by simp
next
  case (Cons i "is")
  show ?case
  proof (cases i)
    case (Event ev)
    then show ?thesis using Cons by (auto intro: reachable.processEvent)
  next
    case (Update b1 b2)
    then show ?thesis using Cons by (auto split: sum.splits intro: reachable.update)
  qed
qed

lemma at_name_input_fields:
  "currentStateID at_name_input = NAME_INPUT" "currentTransition at_name_input = TS_NONE"
  by (simp_all add: at_name_input_def playing_def)

lemma new_session_start: "startGameplay ''hero'' at_name_input = Some new_session"
  using startGameplay_returns [of "''hero''" at_name_input] by (auto simp: new_session_def)

lemma reachable_new_session: "reachable new_session"
  by (rule reachable.start [OF at_name_input_fields new_session_start])

lemma play_then:
  "play xs g = Inr g' \<Longrightarrow> play ys g' = Inr g'' \<Longrightarrow> play (xs @ ys) g = Inr g''"
  by (simp add: play_append)

lemma room_states:
  "room_state (built (Suc 0)) = COMBAT" "room_state (built 2) = COMBAT"
  "room_state (built 3) = COMBAT" "room_state (built 4) = EXPLORING"
  "room_state (built 5) = CHOICE"
  by (simp_all add: room_state_def built_simps room_fields)

lemma built_enemies:
  "entity (built (Suc 0)) = Some (Enemy MinionEnemy ''Wizard'' 10)"
  "entity (built 2) = Some (Enemy MinionEnemy ''Dragon'' 15)"
  "entity (built 3) = Some (Enemy MinionEnemy ''Zombie'' 5)"
  by (simp_all add: built_simps room_fields)

lemma walk_first_room:
  "play first_room new_session = Inr (session_after first_room)
   \<and> walking (session_after first_room) (hero\<lparr>moves := 9\<rparr>) 1 [Some 0] COMBAT"
proof -
  obtain s0 where s0: "play enter new_session = Inr s0"
      "walking s0 (Player ''hero'' 100 10) 0 [] EXPLORING"
    using walk_enter [OF new_session_start at_name_input_fields] by blast
  obtain s1 where s1: "play press_F s0 = Inr s1"
      "walking s1 ((Player ''hero'' 100 10)\<lparr>moves := moves (Player ''hero'' 100 10) - 1\<rparr>)
         (Suc 0) [Some 0] (room_state (built (Suc 0)))"
    using walk_forward [OF s0(2)] by (auto simp: Player_def)
  have p: "play first_room new_session = Inr s1"
    unfolding first_room_def by (rule play_then [OF s0(1) s1(1)])
  then have "session_after first_room = s1" by (simp add: session_after_def)
  then show ?thesis using p s1(2) by (simp add: room_states hero_def Player_def)
qed

lemma walk_to_choice_room:
  "play to_choice_room new_session = Inr (session_after to_choice_room)
   \<and> walking (session_after to_choice_room) (hero\<lparr>health := 70, moves := 5\<rparr>) 5
       [Some 4, Some 3, Some 2, Some 1, Some 0] CHOICE"
proof -
  obtain s0 where s0: "play enter new_session = Inr s0"
      "walking s0 hero 0 [] EXPLORING"
    using walk_enter [OF new_session_start at_name_input_fields] by (auto simp: hero_def)
  obtain s1 where s1: "play press_F s0 = Inr s1"
      "walking s1 (hero\<lparr>moves := 9\<rparr>) (Suc 0) [Some 0] COMBAT"
    using walk_forward [OF s0(2)] by (auto simp: Player_def hero_def room_states)
  obtain s2 where s2: "play press_F s1 = Inr s2"
      "walking s2 (hero\<lparr>moves := 9, health := 90\<rparr>) (Suc 0) [Some 0] EXPLORING"
    using walk_fight [OF s1(2) _ built_enemies(1)] by (auto simp: Player_def hero_def)
  obtain s3 where s3: "play press_F s2 = Inr s3"
      "walking s3 (hero\<lparr>moves := 8, health := 90\<rparr>) 2 [Some 1, Some 0] COMBAT"
    using walk_forward [OF s2(2)]
    by (auto simp: Player_def hero_def room_states numeral_2_eq_2 [symmetric])
  obtain s4 where s4: "play press_F s3 = Inr s4"
      "walking s4 (hero\<lparr>moves := 8, health := 75\<rparr>) 2 [Some 1, Some 0] EXPLORING"
    using walk_fight [OF s3(2) _ built_enemies(2)] by (auto simp: Player_def hero_def)
  obtain s5 where s5: "play press_F s4 = Inr s5"
      "walking s5 (hero\<lparr>moves := 7, health := 75\<rparr>) 3 [Some 2, Some 1, Some 0] COMBAT"
    using walk_forward [OF s4(2)]
    by (auto simp: Player_def hero_def room_states)
  obtain s6 where s6: "play press_F s5 = Inr s6"
      "walking s6 (hero\<lparr>moves := 7, health := 70\<rparr>) 3 [Some 2, Some 1, Some 0] EXPLORING"
    using walk_fight [OF s5(2) _ built_enemies(3)] by (auto simp: Player_def hero_def)
  obtain s7 where s7: "play press_F s6 = Inr s7"
      "walking s7 (hero\<lparr>moves := 6, health := 70\<rparr>) 4 [Some 3, Some 2, Some 1, Some 0] EXPLORING"
    using walk_forward [OF s6(2)]
    by (auto simp: Player_def hero_def room_states)
  obtain s8 where s8: "play press_F s7 = Inr s8"
      "walking s8 (hero\<lparr>moves := 5, health := 70\<rparr>) 5
         [Some 4, Some 3, Some 2, Some 1, Some 0] CHOICE"
    using walk_forward [OF s7(2)]
    by (auto simp: Player_def hero_def room_states)
  have p: "play to_choice_room new_session = Inr s8"
    unfolding to_choice_room_def
    by (intro play_then [OF s0(1)] play_then [OF s1(1)] play_then [OF s2(1)]
        play_then [OF s3(1)] play_then [OF s4(1)] play_then [OF s5(1)] play_then [OF s6(1)]
        play_then [OF s7(1)] s8(1))
  then have "session_after to_choice_room = s8" by (simp add: session_after_def)
  then show ?thesis using p s8(2) by (simp add: hero_def Player_def)
qed

lemma reachable_health_range:
  "reachable g \<Longrightarrow> 0 \<le> health (playerLogic g) \<and> health (playerLogic g) \<le> 100"
  using world_invD(2,3) [OF session_invD(1) [OF reachable_session_inv]] by blast

lemma reachable_choice_room:
  assumes "reachable g" and "getCurrentRoom (dungeonLogic g) = Some a"
    and "isChoiceRoom (rooms (dungeonLogic g) a)"
  shows "health (playerLogic g) \<le> 90" and "\<not> hasItem (playerLogic g) ''Golden Key''"
proof -
  note s = session_invD [OF reachable_session_inv [OF assms(1)]]
  note w = world_invD [OF s(1)]
  have a: "a = 5" using world_choice [OF s(1) assms(3)] .
  have "\<not> near (currentRoom (dungeonLogic g))"
    using assms(2) a by (simp add: near_def getCurrentRoom_def)
  then have "entity (rooms (dungeonLogic g) 1) = None"
    using s(2) by (auto simp: nav_inv_def)
  then show "health (playerLogic g) \<le> 90" using w(5) assms(3) a by simp
  show "\<not> hasItem (playerLogic g) ''Golden Key''" using w(4) assms(3) a by auto
qed

lemma walkingD:
  assumes "walking g p c tr st"
  shows "settled g" and "playerLogic g = p" and "currentRoom (dungeonLogic g) = Some c"
    and "path_tracker (dungeonLogic g) = tr" and "currentState g = st"
    and "next (rooms (dungeonLogic g) c) = next (built c)"
    and "st \<noteq> EXPLORING \<Longrightarrow> rooms (dungeonLogic g) c = built c"
  using assms by (simp_all add: walking_def)

lemma reachable_session_after:
  "play is new_session = Inr (session_after is) \<Longrightarrow> reachable (session_after is)"
  by (rule reachable_play [OF reachable_new_session])

lemma choice_room_state:
  "reachable (session_after to_choice_room)"
  "getCurrentRoom (dungeonLogic (session_after to_choice_room)) = Some 5"
  "isChoiceRoom (rooms (dungeonLogic (session_after to_choice_room)) 5)"
  "playerLogic (session_after to_choice_room) = hero\<lparr>health := 70, moves := 5\<rparr>"
  "settled (session_after to_choice_room)"
  "currentState (session_after to_choice_room) = CHOICE"
proof -
  note w = walkingD [OF conjunct2 [OF walk_to_choice_room]]
  show "reachable (session_after to_choice_room)"
    by (rule reachable_session_after [OF conjunct1 [OF walk_to_choice_room]])
  show "getCurrentRoom (dungeonLogic (session_after to_choice_room)) = Some 5"
    using w(3) by (simp add: getCurrentRoom_def)
  show "isChoiceRoom (rooms (dungeonLogic (session_after to_choice_room)) 5)"
    using w(7) by (simp add: built_simps room_fields)
  show "playerLogic (session_after to_choice_room) = hero\<lparr>health := 70, moves := 5\<rparr>"
    using w(2) .
  show "settled (session_after to_choice_room)" using w(1) .
  show "currentState (session_after to_choice_room) = CHOICE" using w(5) .
qed

lemma first_room_state:
  "reachable (session_after first_room)"
  "playerLogic (session_after first_room) = hero\<lparr>moves := 9\<rparr>"
  "currentRoom (dungeonLogic (session_after first_room)) = Some 1"
proof -
  note w = walkingD [OF conjunct2 [OF walk_first_room]]
  show "reachable (session_after first_room)"
    by (rule reachable_session_after [OF conjunct1 [OF walk_first_room]])
  show "playerLogic (session_after first_room) = hero\<lparr>moves := 9\<rparr>" using w(2) .
  show "currentRoom (dungeonLogic (session_after first_room)) = Some 1" using w(3) .
qed

lemma press_Num2:
  assumes "settled g" and "currentState g = CHOICE"
  shows "Game_processEvent (KeyPressed Key_Num2) g = startTransition g (cb_handleChoice 2)"
  using assms by (simp add: Game_processEvent_def GamePlayScreen_handleEvent_def settled_def)

lemma press_F_exploring:
  assumes "walking g p c tr EXPLORING" and "1 \<le> moves p" and "c < 8"
  shows "Game_processEvent (KeyPressed Key_F) g = startTransition g cb_moveForward"
  using assms
  by (simp add: Game_processEvent_def GamePlayScreen_handleEvent_def settled_def walking_def
      canMoveForward_def built_next)

lemma entered_state:
  "play enter new_session = Inr (session_after enter)"
  "walking (session_after enter) hero 0 [] EXPLORING"
proof -
  obtain s0 where s0: "play enter new_session = Inr s0" "walking s0 hero 0 [] EXPLORING"
    using walk_enter [OF new_session_start at_name_input_fields] by (auto simp: hero_def)
  then have "session_after enter = s0" by (simp add: session_after_def)
  then show "play enter new_session = Inr (session_after enter)"
    "walking (session_after enter) hero 0 [] EXPLORING"
    using s0 by simp_all
qed

subsection \<open>Health\<close>

text \<open>
  C3: for every sequence of \<^verbatim>\<open>takeDamage\<close> and \<^verbatim>\<open>heal\<close> calls applied to a player whose
  health starts in [0, 100], the health stays in [0, 100]; the amounts are those that the
  data model has (a damage is at least 0, a heal amount is at least 0 and small enough for
  the 32-bit sum). Whatever the player and the amount, \<^verbatim>\<open>takeDamage\<close> never leaves the
  health below 0 and \<^verbatim>\<open>heal\<close> never leaves it above 100. In every state of a session
  the health is in [0, 100].
\<close>

theorem health_stays_in_range:
  "(0 \<le> health p \<and> health p \<le> 100 \<and> (\<forall>x \<in> set ops. amount_ok x)
      \<longrightarrow> 0 \<le> health (apply_ops p ops) \<and> health (apply_ops p ops) \<le> 100)
   \<and> 0 \<le> health (snd (takeDamage q d))
   \<and> health (heal q a) \<le> 100
   \<and> (reachable g \<longrightarrow> 0 \<le> health (playerLogic g) \<and> health (playerLogic g) \<le> 100)"
  using apply_ops_range [of p ops] reachable_health_range [of g]
  by (simp add: health_takeDamage health_heal)

theorem health_stays_in_range_witness:
  "0 \<le> health hero \<and> health hero \<le> 100
   \<and> list_all amount_ok [TakeDamage 10, TakeDamage 15, TakeDamage 5, Heal 100, TakeDamage 75,
         TakeDamage 50]
   \<and> health (apply_ops hero [TakeDamage 10, TakeDamage 15, TakeDamage 5, Heal 100, TakeDamage 75,
       TakeDamage 50]) = 0
   \<and> 0 \<le> health (apply_ops hero [TakeDamage 10, TakeDamage 15, TakeDamage 5, Heal 100,
       TakeDamage 75, TakeDamage 50])
   \<and> health (apply_ops hero [TakeDamage 10, TakeDamage 15, TakeDamage 5, Heal 100,
       TakeDamage 75, TakeDamage 50]) \<le> 100
   \<and> reachable (session_after to_choice_room)
   \<and> health (playerLogic (session_after to_choice_room)) = 70
   \<and> 0 \<le> health (playerLogic (session_after to_choice_room))
   \<and> health (playerLogic (session_after to_choice_room)) \<le> 100"
proof -
  let ?ops = "[TakeDamage 10, TakeDamage 15, TakeDamage 5, Heal 100, TakeDamage 75, TakeDamage 50]"
  have h: "0 \<le> health hero \<and> health hero \<le> 100 \<and> (\<forall>x \<in> set ?ops. amount_ok x)"
    by (simp add: hero_def Player_def INT_MAX_def)
  have l: "list_all amount_ok ?ops" by (simp add: INT_MAX_def)
  have v: "health (apply_ops hero ?ops) = 0"
    by (simp add: hero_def Player_def takeDamage_def heal_def wrap_int_def Let_def)
  have p: "health (playerLogic (session_after to_choice_room)) = 70"
    by (simp add: choice_room_state(4))
  have "0 \<le> health (apply_ops hero ?ops) \<and> health (apply_ops hero ?ops) \<le> 100"
    using health_stays_in_range [of hero ?ops hero 0 0 "session_after to_choice_room"] h
    by blast
  moreover have "0 \<le> health (playerLogic (session_after to_choice_room))
      \<and> health (playerLogic (session_after to_choice_room)) \<le> 100"
    using health_stays_in_range [of hero ?ops hero 0 0 "session_after to_choice_room"]
      choice_room_state(1)
    by blast
  ultimately show ?thesis using h l v p choice_room_state(1) by blast
qed

subsection \<open>Items\<close>

text \<open>
  C8: for every player, whose health is in [0, 100], interacting with a Potion sets the
  health to exactly 100 and yields the "restored" message; interacting with any other item
  adds the item's name to the inventory, leaves the health unchanged and yields the
  "picked up" message that names the item. The player of every state of a session is such
  a player.
\<close>

theorem Item_interact_effect:
  "(0 \<le> health p \<and> health p \<le> 100 \<longrightarrow>
      Item_interact (Item Potion n) p =
        (p\<lparr>health := 100\<rparr>, ''You drank the potion and feel fully restored!''))
   \<and> (c \<noteq> Potion \<longrightarrow>
        Item_interact (Item c n) p =
          (p\<lparr>inventory := inventory p @ [n]\<rparr>, ''You picked up the '' @ n @ ''.'')
        \<and> hasItem (fst (Item_interact (Item c n) p)) n
        \<and> health (fst (Item_interact (Item c n) p)) = health p)
   \<and> (reachable g \<longrightarrow>
        Item_interact (Item Potion n) (playerLogic g) =
          ((playerLogic g)\<lparr>health := 100\<rparr>, ''You drank the potion and feel fully restored!''))"
proof -
  have potion: "Item_interact (Item Potion n) q =
      (q\<lparr>health := 100\<rparr>, ''You drank the potion and feel fully restored!'')"
    if "0 \<le> health q" and "health q \<le> 100" for q
    using that by (simp add: Item_interact_def heal_def wrap_int_id)
  have other: "c \<noteq> Potion \<longrightarrow>
        Item_interact (Item c n) p =
          (p\<lparr>inventory := inventory p @ [n]\<rparr>, ''You picked up the '' @ n @ ''.'')
        \<and> hasItem (fst (Item_interact (Item c n) p)) n
        \<and> health (fst (Item_interact (Item c n) p)) = health p"
    by (simp add: Item_interact_def collectItem_def Inventory_add_def hasItem_def
        Inventory_has_iff)
  show ?thesis using potion [of p] potion [of "playerLogic g"] other reachable_health_range [of g]
    by blast
qed

theorem Item_interact_effect_witness:
  "0 \<le> health (hero\<lparr>health := 70\<rparr>) \<and> health (hero\<lparr>health := 70\<rparr>) \<le> 100
   \<and> Item_interact (Item Potion ''Health Potion'') (hero\<lparr>health := 70\<rparr>) =
       (hero\<lparr>health := 100\<rparr>, ''You drank the potion and feel fully restored!'')
   \<and> Item_interact (Item Weapon ''Sword'') (hero\<lparr>health := 70\<rparr>) =
       (hero\<lparr>health := 70, inventory := [''Sword'']\<rparr>, ''You picked up the Sword.'')
   \<and> reachable (session_after to_choice_room)
   \<and> playerLogic (session_after to_choice_room) = hero\<lparr>health := 70, moves := 5\<rparr>
   \<and> Item_interact (Item Potion ''Health Potion'') (playerLogic (session_after to_choice_room)) =
       (hero\<lparr>health := 100, moves := 5\<rparr>, ''You drank the potion and feel fully restored!'')"
proof -
  let ?p = "hero\<lparr>health := 70\<rparr>"
  let ?s = "session_after to_choice_room"
  have h: "0 \<le> health ?p \<and> health ?p \<le> 100" by (simp add: hero_def Player_def)
  have "Item_interact (Item Potion ''Health Potion'') ?p =
      (?p\<lparr>health := 100\<rparr>, ''You drank the potion and feel fully restored!'')"
    using Item_interact_effect [of ?p "''Health Potion''" Potion ?s] h by blast
  moreover have "Item_interact (Item Weapon ''Sword'') ?p =
      (?p\<lparr>inventory := inventory ?p @ [''Sword'']\<rparr>, ''You picked up the '' @ ''Sword'' @ ''.'')"
    using Item_interact_effect [of ?p "''Sword''" Weapon ?s] by blast
  moreover have "Item_interact (Item Potion ''Health Potion'') (playerLogic ?s) =
      ((playerLogic ?s)\<lparr>health := 100\<rparr>, ''You drank the potion and feel fully restored!'')"
    using Item_interact_effect [of ?p "''Health Potion''" Potion ?s] choice_room_state(1) by blast
  ultimately show ?thesis
    using h choice_room_state(1) by (simp add: choice_room_state(4) hero_def Player_def)
qed

subsection \<open>The choice\<close>

text \<open>
  C6: in a state whose current room is an unresolved choice room, option 1 adds
  "Golden Key" to the inventory and leaves the health unchanged; option 2 (any other
  option) is \<^verbatim>\<open>heal(100)\<close>, which sets the health of a player in [0, 100] to exactly 100,
  and leaves the inventory unchanged. For a player with health in [0, 100) and without the
  key, exactly one of {"Golden Key" is in the inventory, health = 100} becomes true; and
  in every state of a session that stands at an unresolved choice room the player has a
  health in [0, 100) and no key. The interaction state becomes EXPLORING, and the room's
  choice flag is cleared and stays cleared in every later state, where \<^verbatim>\<open>handleChoice\<close>
  in that room does nothing; this holds from the end of \<^verbatim>\<open>handleChoice\<close> and from the
  end of the update that runs it.
\<close>

theorem handleChoice_effect:
  assumes "getCurrentRoom (dungeonLogic g) = Some a"
    and "isChoiceRoom (rooms (dungeonLogic g) a)"
  shows "(choice = 1 \<longrightarrow>
            inventory (playerLogic (handleChoice g choice)) = inventory (playerLogic g) @ [''Golden Key'']
            \<and> hasItem (playerLogic (handleChoice g choice)) ''Golden Key''
            \<and> health (playerLogic (handleChoice g choice)) = health (playerLogic g))
         \<and> (choice \<noteq> 1 \<longrightarrow>
              playerLogic (handleChoice g choice) = heal (playerLogic g) 100
              \<and> inventory (playerLogic (handleChoice g choice)) = inventory (playerLogic g)
              \<and> (0 \<le> health (playerLogic g) \<and> health (playerLogic g) \<le> 100 \<longrightarrow>
                    health (playerLogic (handleChoice g choice)) = 100))
         \<and> (0 \<le> health (playerLogic g) \<and> health (playerLogic g) < 100
              \<and> \<not> hasItem (playerLogic g) ''Golden Key'' \<longrightarrow>
              hasItem (playerLogic (handleChoice g choice)) ''Golden Key''
                \<noteq> (health (playerLogic (handleChoice g choice)) = 100))
         \<and> (reachable g \<longrightarrow>
              0 \<le> health (playerLogic g) \<and> health (playerLogic g) < 100
              \<and> \<not> hasItem (playerLogic g) ''Golden Key''
              \<and> hasItem (playerLogic (handleChoice g choice)) ''Golden Key''
                   \<noteq> (health (playerLogic (handleChoice g choice)) = 100))
         \<and> currentState (handleChoice g choice) = EXPLORING
         \<and> \<not> isChoiceRoom (rooms (dungeonLogic (handleChoice g choice)) a)
         \<and> (\<forall>g'. steps (handleChoice g choice) g' \<longrightarrow>
               \<not> isChoiceRoom (rooms (dungeonLogic g') a)
               \<and> (getCurrentRoom (dungeonLogic g') = Some a \<longrightarrow> handleChoice g' c = g'))
         \<and> (\<forall>g1 g'. transitionState g = Gp_FADING_OUT
               \<and> onTransitionComplete g = Some (cb_handleChoice choice)
               \<and> GamePlayScreen_update True g = Inr g1 \<and> steps g1 g' \<longrightarrow>
               \<not> isChoiceRoom (rooms (dungeonLogic g') a)
               \<and> (getCurrentRoom (dungeonLogic g') = Some a \<longrightarrow> handleChoice g' c = g'))"
proof -
  let ?g = "handleChoice g choice"
  note cur = assms(1) and unresolved = assms(2)
  have p: "playerLogic ?g =
      (if choice = 1 then collectItem (playerLogic g) ''Golden Key'' else heal (playerLogic g) 100)"
    and flag: "\<not> isChoiceRoom (rooms (dungeonLogic ?g) a)"
    and st: "currentState ?g = EXPLORING"
    using handleChoice_result [OF cur unresolved] by simp_all
  have full: "health (heal (playerLogic g) 100) = 100"
    if "0 \<le> health (playerLogic g)" and "health (playerLogic g) \<le> 100"
    using that by (rule health_heal_100)
  have stays: "\<not> isChoiceRoom (rooms (dungeonLogic g') a)
      \<and> (getCurrentRoom (dungeonLogic g') = Some a \<longrightarrow> handleChoice g' c = g')"
    if "\<not> isChoiceRoom (rooms (dungeonLogic g2) a)" and "steps g2 g'" for g2 g'
  proof -
    have "\<not> isChoiceRoom (rooms (dungeonLogic g') a)"
      using choice_flag_steps [OF that(2)] that(1) by blast
    then show ?thesis by (simp add: handleChoice_def)
  qed
  have later: "\<forall>g'. steps ?g g' \<longrightarrow>
      \<not> isChoiceRoom (rooms (dungeonLogic g') a)
      \<and> (getCurrentRoom (dungeonLogic g') = Some a \<longrightarrow> handleChoice g' c = g')"
    using stays [OF flag] by blast
  have engine: "\<forall>g1 g'. transitionState g = Gp_FADING_OUT
      \<and> onTransitionComplete g = Some (cb_handleChoice choice)
      \<and> GamePlayScreen_update True g = Inr g1 \<and> steps g1 g' \<longrightarrow>
      \<not> isChoiceRoom (rooms (dungeonLogic g') a)
      \<and> (getCurrentRoom (dungeonLogic g') = Some a \<longrightarrow> handleChoice g' c = g')"
    using stays choice_update_clears_flag [OF cur unresolved] by blast
  have one: "choice = 1 \<longrightarrow>
      inventory (playerLogic ?g) = inventory (playerLogic g) @ [''Golden Key'']
      \<and> hasItem (playerLogic ?g) ''Golden Key'' \<and> health (playerLogic ?g) = health (playerLogic g)"
    using p by (auto simp: collectItem_def Inventory_add_def hasItem_def Inventory_has_iff)
  have two: "choice \<noteq> 1 \<longrightarrow>
      playerLogic ?g = heal (playerLogic g) 100
      \<and> inventory (playerLogic ?g) = inventory (playerLogic g)
      \<and> (0 \<le> health (playerLogic g) \<and> health (playerLogic g) \<le> 100 \<longrightarrow>
            health (playerLogic ?g) = 100)"
    using p full by (auto simp: heal_def)
  have xor: "0 \<le> health (playerLogic g) \<and> health (playerLogic g) < 100
      \<and> \<not> hasItem (playerLogic g) ''Golden Key'' \<longrightarrow>
      hasItem (playerLogic ?g) ''Golden Key'' \<noteq> (health (playerLogic ?g) = 100)"
  proof (cases "choice = 1")
    case True
    then show ?thesis using one by auto
  next
    case False
    then show ?thesis using two by (auto simp: hasItem_def)
  qed
  have session: "reachable g \<longrightarrow>
      0 \<le> health (playerLogic g) \<and> health (playerLogic g) < 100
      \<and> \<not> hasItem (playerLogic g) ''Golden Key''
      \<and> hasItem (playerLogic ?g) ''Golden Key'' \<noteq> (health (playerLogic ?g) = 100)"
  proof
    assume r: "reachable g"
    have "0 \<le> health (playerLogic g)" using reachable_health_range [OF r] by blast
    moreover have "health (playerLogic g) < 100"
      using reachable_choice_room(1) [OF r cur unresolved] by simp
    moreover have "\<not> hasItem (playerLogic g) ''Golden Key''"
      using reachable_choice_room(2) [OF r cur unresolved] .
    ultimately show "0 \<le> health (playerLogic g) \<and> health (playerLogic g) < 100
      \<and> \<not> hasItem (playerLogic g) ''Golden Key''
      \<and> hasItem (playerLogic ?g) ''Golden Key'' \<noteq> (health (playerLogic ?g) = 100)"
      using xor by blast
  qed
  from one two xor session st flag later engine show ?thesis by (intro conjI)
qed

theorem handleChoice_effect_witness:
  "reachable (session_after to_choice_room)
   \<and> getCurrentRoom (dungeonLogic (session_after to_choice_room)) = Some 5
   \<and> isChoiceRoom (rooms (dungeonLogic (session_after to_choice_room)) 5)
   \<and> health (playerLogic (session_after to_choice_room)) = 70
   \<and> \<not> hasItem (playerLogic (session_after to_choice_room)) ''Golden Key''
   \<and> hasItem (playerLogic (handleChoice (session_after to_choice_room) 1)) ''Golden Key''
   \<and> health (playerLogic (handleChoice (session_after to_choice_room) 1)) = 70
   \<and> health (playerLogic (handleChoice (session_after to_choice_room) 2)) = 100
   \<and> \<not> hasItem (playerLogic (handleChoice (session_after to_choice_room) 2)) ''Golden Key''
   \<and> currentState (handleChoice (session_after to_choice_room) 2) = EXPLORING
   \<and> \<not> isChoiceRoom (rooms (dungeonLogic (Game_processEvent (KeyPressed Key_F)
         (handleChoice (session_after to_choice_room) 2))) 5)
   \<and> (case GamePlayScreen_update True
             (Game_processEvent (KeyPressed Key_Num2) (session_after to_choice_room)) of
         Inl e \<Rightarrow> False
       | Inr g1 \<Rightarrow>
           \<not> isChoiceRoom (rooms (dungeonLogic (Game_processEvent (KeyPressed Key_Num2) g1)) 5))"
proof -
  let ?s = "session_after to_choice_room"
  note s = choice_room_state
  have h: "health (playerLogic ?s) = 70" "inventory (playerLogic ?s) = []"
    by (simp_all add: s(4) hero_def Player_def)
  have r: "0 \<le> health (playerLogic ?s) \<and> health (playerLogic ?s) \<le> 100"
    by (simp add: h)
  have nokey: "\<not> hasItem (playerLogic ?s) ''Golden Key''"
    using handleChoice_effect [OF s(2,3), of 1] s(1) by blast
  have st: "steps (handleChoice ?s 2) (Game_processEvent (KeyPressed Key_F) (handleChoice ?s 2))"
    by (intro steps.processEvent steps.refl)
  have one: "hasItem (playerLogic (handleChoice ?s 1)) ''Golden Key''
      \<and> health (playerLogic (handleChoice ?s 1)) = health (playerLogic ?s)"
    using handleChoice_effect [OF s(2,3), of 1] by blast
  have two: "health (playerLogic (handleChoice ?s 2)) = 100
      \<and> inventory (playerLogic (handleChoice ?s 2)) = inventory (playerLogic ?s)
      \<and> currentState (handleChoice ?s 2) = EXPLORING
      \<and> \<not> isChoiceRoom (rooms (dungeonLogic (Game_processEvent (KeyPressed Key_F)
            (handleChoice ?s 2))) 5)"
  proof -
    have ne: "(2::int) \<noteq> 1" by simp
    have "health (playerLogic (handleChoice ?s 2)) = 100
        \<and> inventory (playerLogic (handleChoice ?s 2)) = inventory (playerLogic ?s)
        \<and> currentState (handleChoice ?s 2) = EXPLORING"
      using handleChoice_effect [OF s(2,3), of 2] r ne by blast
    moreover have "\<not> isChoiceRoom (rooms (dungeonLogic (Game_processEvent (KeyPressed Key_F)
            (handleChoice ?s 2))) 5)"
      using handleChoice_effect [OF s(2,3), of 2] st by blast
    ultimately show ?thesis by blast
  qed
  have three: "case GamePlayScreen_update True (Game_processEvent (KeyPressed Key_Num2) ?s) of
         Inl e \<Rightarrow> False
       | Inr g1 \<Rightarrow>
           \<not> isChoiceRoom (rooms (dungeonLogic (Game_processEvent (KeyPressed Key_Num2) g1)) 5)"
  proof -
    let ?k = "Game_processEvent (KeyPressed Key_Num2) ?s"
    have k: "?k = startTransition ?s (cb_handleChoice 2)"
      by (rule press_Num2 [OF s(5,6)])
    obtain g1 where u: "GamePlayScreen_update True ?k = Inr g1"
      using GamePlayScreen_update_no_throw by blast
    have cur': "getCurrentRoom (dungeonLogic ?k) = Some 5"
      and flag': "isChoiceRoom (rooms (dungeonLogic ?k) 5)"
      and ts: "transitionState ?k = Gp_FADING_OUT"
      and cb: "onTransitionComplete ?k = Some (cb_handleChoice 2)"
      using s(2,3,5) by (simp_all add: k startTransition_def settled_def)
    have s1: "steps g1 (Game_processEvent (KeyPressed Key_Num2) g1)"
      by (intro steps.processEvent steps.refl)
    have "\<not> isChoiceRoom (rooms (dungeonLogic (Game_processEvent (KeyPressed Key_Num2) g1)) 5)"
      using handleChoice_effect [OF cur' flag', of 2] ts cb u s1 by blast
    then show ?thesis using u by simp
  qed
  from one two three nokey show ?thesis
    using s(1,2,3) by (simp add: h hasItem_def)
qed

subsection \<open>The moves of a session\<close>

text \<open>
  C10: in every state of a session, which starts with 10 moves, the moves are at least
  0. A closure that navigates is scheduled only while the moves are at least 1, so the
  moves are still at least 0 after the closure of a transition has run, and the update
  that completes a fade-out always goes on to evaluate the room: its branch for moves
  below 0 is never taken.
\<close>

theorem moves_never_negative:
  assumes "reachable g"
  shows "0 \<le> moves (playerLogic g)
         \<and> (onTransitionComplete g = Some cb_moveForward \<or> onTransitionComplete g = Some cb_moveBack
              \<longrightarrow> 1 \<le> moves (playerLogic g))
         \<and> (\<exists>g1. runTransitionCallback g = Inr g1 \<and> 0 \<le> moves (playerLogic g1)
              \<and> (transitionState g = Gp_FADING_OUT \<longrightarrow>
                   GamePlayScreen_update True g =
                     Inr ((checkRoomState g1)\<lparr>transitionState := Gp_FADING_IN\<rparr>)))"
proof -
  have inv: "moves_inv g" using assms by (rule reachable_moves_inv)
  obtain g1 where r: "runTransitionCallback g = Inr g1"
    using runTransitionCallback_no_throw by blast
  have m: "0 \<le> moves (playerLogic g1)" using runTransitionCallback_moves(1) [OF inv r] .
  have "transitionState g = Gp_FADING_OUT \<longrightarrow>
          GamePlayScreen_update True g = Inr ((checkRoomState g1)\<lparr>transitionState := Gp_FADING_IN\<rparr>)"
    using r m by (simp add: GamePlayScreen_update_def)
  with inv r m show ?thesis by (auto simp: moves_inv_def navigation_pending_def)
qed

theorem moves_never_negative_witness:
  "reachable (session_after first_room)
   \<and> moves (playerLogic (session_after first_room)) = 9
   \<and> 0 \<le> moves (playerLogic (session_after first_room))
   \<and> reachable (Game_processEvent (KeyPressed Key_F) (session_after enter))
   \<and> onTransitionComplete (Game_processEvent (KeyPressed Key_F) (session_after enter))
       = Some cb_moveForward
   \<and> transitionState (Game_processEvent (KeyPressed Key_F) (session_after enter)) = Gp_FADING_OUT
   \<and> moves (playerLogic (Game_processEvent (KeyPressed Key_F) (session_after enter))) = 10
   \<and> 1 \<le> moves (playerLogic (Game_processEvent (KeyPressed Key_F) (session_after enter)))
   \<and> (case GamePlayScreen_update True
              (Game_processEvent (KeyPressed Key_F) (session_after enter)) of
         Inl e \<Rightarrow> False
       | Inr g' \<Rightarrow> moves (playerLogic g') = 9 \<and> currentState g' = COMBAT)"
proof -
  let ?a = "session_after first_room"
  let ?e = "session_after enter"
  let ?k = "Game_processEvent (KeyPressed Key_F) ?e"
  note e = entered_state
  note w = walkingD [OF e(2)]
  have wizard: "rooms (dungeonLogic ?e) 1 = built 1"
    using e(2) by (simp add: walking_def)
  have re: "reachable ?e" by (rule reachable_session_after [OF e(1)])
  have rk: "reachable ?k" by (rule reachable.processEvent [OF re])
  have k: "?k = startTransition ?e cb_moveForward"
    by (rule press_F_exploring [OF e(2)]) (simp_all add: hero_def Player_def)
  have kf: "onTransitionComplete ?k = Some cb_moveForward" "transitionState ?k = Gp_FADING_OUT"
    "moves (playerLogic ?k) = 10"
    using w(1) by (simp_all add: k startTransition_def w(2) hero_def Player_def settled_def)
  have a9: "moves (playerLogic ?a) = 9" by (simp add: first_room_state(2))
  have a0: "0 \<le> moves (playerLogic ?a)"
    using moves_never_negative [OF first_room_state(1)] by blast
  have k1: "1 \<le> moves (playerLogic ?k)"
    using moves_never_negative [OF rk] kf(1) by blast
  obtain g1 where g1: "runTransitionCallback ?k = Inr g1"
    "GamePlayScreen_update True ?k = Inr ((checkRoomState g1)\<lparr>transitionState := Gp_FADING_IN\<rparr>)"
    using moves_never_negative [OF rk] kf(2) by blast
  have g1': "g1 = (?e\<lparr>transitionState := Gp_FADING_OUT, onTransitionComplete := None,
                m_isNewRoomEntry := True,
                playerLogic := (playerLogic ?e)\<lparr>moves := moves (playerLogic ?e) - 1\<rparr>,
                dungeonLogic := (dungeonLogic ?e)
                  \<lparr>path_tracker := Some 0 # path_tracker (dungeonLogic ?e),
                   currentRoom := Some 1\<rparr>\<rparr>)"
    using g1(1) w(1,3,6)
    by (auto simp: k runTransitionCallback_def startTransition_def Let_def settled_def
        moveForward_def canMoveForward_def useMove_def Stack_push_def built_next)
  have c: "moves (playerLogic (checkRoomState g1)) = 9
      \<and> currentState (checkRoomState g1) = COMBAT"
    using wizard
    by (simp add: g1' checkRoomState_def Let_def getCurrentRoom_def built_simps room_fields
        w(2) hero_def Player_def)
  have u: "case GamePlayScreen_update True ?k of
         Inl e \<Rightarrow> False
       | Inr g' \<Rightarrow> moves (playerLogic g') = 9 \<and> currentState g' = COMBAT"
    using c by (simp add: g1(2))
  from first_room_state(1) a9 a0 rk kf k1 u show ?thesis by (intro conjI)
qed

end
